theory Spec2Isabelle
  imports Main "HOL-Library.Sublist"
begin

section \<open>The flash wizard of flash\_tool.py as state-passing functions\<close>

text \<open>
  The program drives the external \<^verbatim>\<open>wlink\<close> utility. Everything it does to the outside
  world is recorded, in order, as a list of events; everything the outside world answers
  is read from an environment of oracles. An oracle is asked at a moment, and the moment
  is the number of events recorded so far: the file system, the device and the user may
  answer differently at different moments, and do not change between two events.
  Characters are code points below 256. Console output is part of the model where the
  rendering of a text that is not constant can raise (the prints of the two handlers of
  \<^verbatim>\<open>flash_device\<close> and the print of the status output); the error output of a failed
  tool run is taken to hold no markup, and an interrupt from the keyboard is not part of
  the model.
\<close>

subsection \<open>Strings\<close>

text \<open>Python's \<^verbatim>\<open>sub in s\<close> on strings.\<close>

fun str_in :: "string \<Rightarrow> string \<Rightarrow> bool" where
  "str_in sub [] = (sub = [])"
| "str_in sub (c # cs) = (prefix sub (c # cs) \<or> str_in sub cs)"

text \<open>The characters on which \<^verbatim>\<open>str.split()\<close> without arguments cuts.\<close>

definition is_space :: "char \<Rightarrow> bool" where
  "is_space c = (c \<in> set [CHR 0x09, CHR 0x0A, CHR 0x0B, CHR 0x0C, CHR 0x0D,
                           CHR 0x1C, CHR 0x1D, CHR 0x1E, CHR 0x1F, CHR 0x20,
                           CHR 0x85, CHR 0xA0])"

fun split_acc :: "string \<Rightarrow> string \<Rightarrow> string list" where
  "split_acc w [] = (if w = [] then [] else [w])"
| "split_acc w (c # cs) =
     (if is_space c then (if w = [] then split_acc [] cs else w # split_acc [] cs)
      else split_acc (w @ [c]) cs)"

definition str_split :: "string \<Rightarrow> string list" where
  "str_split s = split_acc [] s"

subsection \<open>Exceptions, events, environment\<close>

text \<open>Each exception carries its text, what \<^verbatim>\<open>str(e)\<close> gives.\<close>

datatype exn =
    FirmwareUpdateError string
  | TypeError string
  | KeyError string
  | ValueError string
  | MarkupError string

fun exn_text :: "exn \<Rightarrow> string" where
  "exn_text (FirmwareUpdateError msg) = msg"
| "exn_text (TypeError msg) = msg"
| "exn_text (KeyError msg) = msg"
| "exn_text (ValueError msg) = msg"
| "exn_text (MarkupError msg) = msg"

text \<open>
  Python's \<^verbatim>\<open>repr\<close> of a string: single quotes, unless the string holds a single quote
  and no double quote; the quote and the backslash escaped; tab, newline and return
  written with their letters; the other characters that are not printable (below 32,
  127 to 160 and 173) in hexadecimal.
\<close>

definition hex_digit :: "nat \<Rightarrow> char" where
  "hex_digit n = ''0123456789abcdef'' ! n"

definition py_escape :: "char \<Rightarrow> char \<Rightarrow> string" where
  "py_escape q c =
     (if c = q \<or> c = CHR 0x5C then [CHR 0x5C, c]
      else if c = CHR 0x09 then [CHR 0x5C, CHR ''t'']
      else if c = CHR 0x0A then [CHR 0x5C, CHR ''n'']
      else if c = CHR 0x0D then [CHR 0x5C, CHR ''r'']
      else if (of_char c :: nat) < 32 \<or> (of_char c :: nat) = 127 \<or>
              (128 \<le> (of_char c :: nat) \<and> (of_char c :: nat) \<le> 160) \<or> (of_char c :: nat) = 173
      then [CHR 0x5C, CHR ''x'', hex_digit (of_char c div 16), hex_digit (of_char c mod 16)]
      else [c])"

definition py_repr :: "string \<Rightarrow> string" where
  "py_repr s =
     (let q = (if CHR 0x27 \<in> set s \<and> CHR 0x22 \<notin> set s then CHR 0x22 else CHR 0x27)
      in q # concat (map (py_escape q) s) @ [q])"

text \<open>
  The TypeError of \<^verbatim>\<open>"..." in None\<close> and of \<^verbatim>\<open>None['speed']\<close>, in the words of
  CPython 3.8 to 3.13.
\<close>

definition not_iterable :: exn where
  "not_iterable =
     TypeError (''argument of type '' @ [CHR 0x27] @ ''NoneType'' @ [CHR 0x27] @ '' is not iterable'')"

definition not_subscriptable :: exn where
  "not_subscriptable =
     TypeError ([CHR 0x27] @ ''NoneType'' @ [CHR 0x27] @ '' object is not subscriptable'')"

datatype event =
    Exec "string list" bool
  | Shell string
  | Sleep nat
  | Progress_wait nat nat
  | Fs_exists string
  | Fs_isfile string
  | Fs_access string
  | Ask_confirm
  | Ask_select
  | Ask_path
  | Load_config
  | Save_config string

text \<open>
  \<^item> \<open>Exec toks ok\<close>: \<^verbatim>\<open>subprocess.run(toks, shell=False, check=True)\<close>, a program run
    from a token list; \<open>ok\<close> tells whether the call returned normally (exit status 0).
  \<^item> \<open>Shell s\<close>: \<^verbatim>\<open>subprocess.run(s, shell=True)\<close>, a command string handed to a shell.
  \<^item> \<open>Sleep n\<close>: \<^verbatim>\<open>time.sleep(n)\<close>, in seconds.
  \<^item> \<open>Progress_wait k ms\<close>: a progress bar advanced \<open>k\<close> times with \<open>ms\<close> milliseconds
    of sleep each time.
  \<^item> \<open>Fs_exists\<close>, \<open>Fs_isfile\<close>, \<open>Fs_access\<close>: \<^verbatim>\<open>os.path.exists\<close>,
    \<^verbatim>\<open>os.path.isfile\<close>, \<^verbatim>\<open>os.access(_, os.R_OK)\<close>.
  \<^item> \<open>Ask_confirm\<close>, \<open>Ask_select\<close>, \<open>Ask_path\<close>: the prompts of questionary.
  \<^item> \<open>Load_config\<close>, \<open>Save_config\<close>: the configuration file in the home directory.
\<close>

type_synonym trace = "event list"

type_synonym 'a result = "(exn + 'a) \<times> trace"

record env =
  path_exists :: "nat \<Rightarrow> string \<Rightarrow> bool"
  path_isfile :: "nat \<Rightarrow> string \<Rightarrow> bool"
  path_readable :: "nat \<Rightarrow> string \<Rightarrow> bool"
  abspath :: "string \<Rightarrow> string"
  tool :: "nat \<Rightarrow> string list \<Rightarrow> bool"
  status_stdout :: "nat \<Rightarrow> string + string"
  confirm_answer :: "nat \<Rightarrow> bool option"
  select_answer :: "nat \<Rightarrow> string option"
  path_answer :: "nat \<Rightarrow> string option"
  saved_path :: "nat \<Rightarrow> string option"
  markup_error :: "string \<Rightarrow> string option"

text \<open>
  \<open>tool env t toks\<close>: the program run from \<open>toks\<close> at moment \<open>t\<close> exits with status 0.
  \<open>status_stdout env t\<close>: the standard output of \<^verbatim>\<open>wlink status -v\<close> (\<open>Inr\<close>), or the
  text of the exception that \<^verbatim>\<open>subprocess.run\<close> raised (\<open>Inl\<close>). The answers of the
  prompts are \<open>None\<close> when the user cancels. \<open>markup_error env m\<close>: the text of the
  \<^verbatim>\<open>MarkupError\<close> that the library rich raises when it renders the console markup
  \<open>m\<close>, or \<open>None\<close> when it renders it; rich is not part of the repository. Dictionaries with string keys are association
  lists; the options of a session are such a dictionary, or Python's \<^verbatim>\<open>None\<close>.
\<close>

type_synonym wopts = "(string \<times> string) list option"

definition dict_get :: "(string \<times> 'a) list \<Rightarrow> string \<Rightarrow> exn + 'a" where
  "dict_get d k = (case map_of d k of None \<Rightarrow> Inl (KeyError (py_repr k)) | Some v \<Rightarrow> Inr v)"

fun index_of :: "string list \<Rightarrow> string \<Rightarrow> exn + nat" where
  "index_of [] x = Inl (ValueError (py_repr x @ '' is not in list''))"
| "index_of (y # ys) x =
     (if y = x then Inr 0
      else (case index_of ys x of Inl e \<Rightarrow> Inl e | Inr i \<Rightarrow> Inr (Suc i)))"

subsection \<open>The primitive effects\<close>

definition os_path_exists :: "env \<Rightarrow> string \<Rightarrow> trace \<Rightarrow> bool \<times> trace" where
  "os_path_exists env p tr = (path_exists env (length tr) p, tr @ [Fs_exists p])"

definition os_path_isfile :: "env \<Rightarrow> string \<Rightarrow> trace \<Rightarrow> bool \<times> trace" where
  "os_path_isfile env p tr = (path_isfile env (length tr) p, tr @ [Fs_isfile p])"

definition os_access :: "env \<Rightarrow> string \<Rightarrow> trace \<Rightarrow> bool \<times> trace" where
  "os_access env p tr = (path_readable env (length tr) p, tr @ [Fs_access p])"

definition time_sleep :: "nat \<Rightarrow> trace \<Rightarrow> trace" where
  "time_sleep n tr = tr @ [Sleep n]"

text \<open>
  \<^verbatim>\<open>run_command\<close> (lines 78-146): a command string is cut into tokens and run without a
  shell; the result is \<open>True\<close> exactly when the run raised nothing.
\<close>

definition run_command :: "env \<Rightarrow> string \<Rightarrow> trace \<Rightarrow> bool \<times> trace" where
  "run_command env command tr =
     (let toks = str_split command; ok = tool env (length tr) toks
      in (ok, tr @ [Exec toks ok]))"

text \<open>\<^verbatim>\<open>reset_device\<close> (lines 427-440).\<close>

definition reset_device :: "env \<Rightarrow> trace \<Rightarrow> bool \<times> trace" where
  "reset_device env tr =
     (let ok = tool env (length tr) [''wlink'', ''reset'']; tr1 = tr @ [Exec [''wlink'', ''reset''] ok]
      in if ok then (True, tr1 @ [Progress_wait 50 100]) else (False, tr1))"

text \<open>
  \<^verbatim>\<open>console.print\<close> of a text that is read as markup: a text without an opening
  bracket holds no tag and is rendered as it is (the first test of rich's
  \<^verbatim>\<open>markup.render\<close>); for any other text rich decides. The result is the text of the
  \<^verbatim>\<open>MarkupError\<close> raised, if any.
\<close>

definition console_print :: "env \<Rightarrow> string \<Rightarrow> string option" where
  "console_print env markup =
     (if CHR ''['' \<in> set markup then markup_error env markup else None)"

text \<open>\<^verbatim>\<open>check_firmware_file\<close> (lines 148-154).\<close>

definition check_firmware_file :: "env \<Rightarrow> string \<Rightarrow> trace \<Rightarrow> unit result" where
  "check_firmware_file env firmware_path tr =
     (case os_path_exists env firmware_path tr of (ex, tr1) \<Rightarrow>
        if \<not> ex then (Inl (FirmwareUpdateError (''Firmware file not found: '' @ firmware_path)), tr1)
        else (case os_path_isfile env firmware_path tr1 of (isf, tr2) \<Rightarrow>
          if \<not> isf then (Inl (FirmwareUpdateError (''Not a valid file: '' @ firmware_path)), tr2)
          else (case os_access env firmware_path tr2 of (rd, tr3) \<Rightarrow>
            if \<not> rd
            then (Inl (FirmwareUpdateError (''No permission to read firmware file: '' @ firmware_path)), tr3)
            else (Inr (), tr3))))"

text \<open>
  \<^verbatim>\<open>get_firmware_path\<close> (lines 174-239), called by \<^verbatim>\<open>flash_device\<close> when it is given no
  path. A device type \<^verbatim>\<open>None\<close> makes the first \<^verbatim>\<open>in\<close> raise a TypeError. The part
  for a VSD board (lines 183-225) is a function of its own here.
\<close>

definition default_firmware_path :: "string \<Rightarrow> string" where
  "default_firmware_path device_type =
     (if str_in ''CH32V003'' device_type
      then ''./Firmware_Link/FIRMWARE_CH32V003.bin''
      else ''./Firmware_Link/WCH-LinkE-APP-IAP.bin'')"

definition choose_vsd_firmware :: "env \<Rightarrow> string \<Rightarrow> trace \<Rightarrow> string option result" where
  "choose_vsd_firmware env default_path tr =
     (let tr1 = snd (os_path_exists env default_path tr);
          choice = select_answer env (length tr1);
          tr2 = tr1 @ [Ask_select];
          use_default = (choice = Some ''Use default path'')
      in if use_default \<and> fst (os_path_exists env default_path tr2)
         then (Inr (Some default_path), snd (os_path_exists env default_path tr2))
         else
           (let tr3 = (if use_default then snd (os_path_exists env default_path tr2) else tr2);
                tr4 = snd (os_path_exists env default_path tr3);
                answer = path_answer env (length tr4);
                tr5 = tr4 @ [Ask_path]
            in (case answer of
                  None \<Rightarrow> (Inl (FirmwareUpdateError ''No firmware file selected''), tr5)
                | Some p \<Rightarrow>
                    if p = [] then (Inl (FirmwareUpdateError ''No firmware file selected''), tr5)
                    else (Inr (Some p), tr5 @ [Save_config p]))))"

definition get_firmware_path :: "env \<Rightarrow> string option \<Rightarrow> trace \<Rightarrow> string option result" where
  "get_firmware_path env device_type tr =
     (case device_type of
        None \<Rightarrow> (Inl not_iterable, tr)
      | Some d \<Rightarrow>
          if str_in ''VSD Squadran Mini'' d
          then choose_vsd_firmware env (default_firmware_path d) tr
          else
            (let sp = saved_path env (length tr);
                 tr1 = tr @ [Load_config]
             in (case sp of
                   None \<Rightarrow> (Inr (path_answer env (length tr1)), tr1 @ [Ask_path])
                 | Some s \<Rightarrow>
                     if s = [] then (Inr (path_answer env (length tr1)), tr1 @ [Ask_path])
                     else (case os_path_exists env s tr1 of (ex, tr2) \<Rightarrow>
                             if ex then (Inr (Some s), tr2)
                             else (Inr (path_answer env (length tr2)), tr2 @ [Ask_path])))))"

subsection \<open>Chip detection\<close>

text \<open>
  \<^verbatim>\<open>detect_chip_type\<close> (lines 365-417). The keys of \<^verbatim>\<open>chip_configs\<close> in their order of
  insertion; the value stored under a key \<open>c\<close> is the dictionary
  \<^verbatim>\<open>{'erase_chip': c, 'flash_chip': c}\<close>. When no chip is found the output is printed
  as it is (line 411), which raises a \<^verbatim>\<open>MarkupError\<close> when rich rejects it; that error,
  or else the error of line 412, is caught by the function's own handler (line 416) and
  raised again with a longer text. The lines with \<^verbatim>\<open>Connected to\<close> are printed without
  any closing bracket of their own (line 374), so that print raises nothing.
\<close>

definition chip_ids :: "string list" where
  "chip_ids = [''CH32V30X'', ''CH32V103'', ''CH57X'', ''CH56X'', ''CH32V20X'', ''CH582'',
               ''CH32V003'', ''CH8571'', ''CH59X'', ''CH643'', ''CH32X035'', ''CH32L103'',
               ''CH641'', ''CH585'', ''CH564'', ''CH32V007'', ''CH645'', ''CH32V317'']"

definition chip_configs :: "string \<Rightarrow> (string \<times> string) list" where
  "chip_configs c = [(''erase_chip'', c), (''flash_chip'', c)]"

definition detect_chip_type :: "env \<Rightarrow> trace \<Rightarrow> (string \<times> string) list result" where
  "detect_chip_type env tr =
     (let tr1 = tr @ [Shell ''wlink status -v''] in
      case status_stdout env (length tr) of
        Inl msg \<Rightarrow> (Inl (FirmwareUpdateError (''Error detecting chip type: '' @ msg)), tr1)
      | Inr output \<Rightarrow>
          (case find (\<lambda>chip_type. str_in chip_type output) chip_ids of
             Some chip_type \<Rightarrow> (Inr (chip_configs chip_type), tr1)
           | None \<Rightarrow>
               if str_in ''WCH-LinkE-CH32V305'' output then (Inr (chip_configs ''CH32V30X''), tr1)
               else (case console_print env output of
                       Some m \<Rightarrow>
                         (Inl (FirmwareUpdateError (''Error detecting chip type: '' @ m)), tr1)
                     | None \<Rightarrow>
                         (Inl (FirmwareUpdateError
                            (''Error detecting chip type: '' @
                             ''Unable to detect chip type. Please check device connection.'')),
                          tr1))))"

subsection \<open>The erase loop\<close>

definition max_retries :: nat where
  "max_retries = 3"

text \<open>
  Lines 491-510 and 572-592: the two branches hold the same loop around different erase
  commands. The list is \<^verbatim>\<open>range(max_retries)\<close>; the last attempt raises instead of
  leaving the loop.
\<close>

fun erase_loop :: "env \<Rightarrow> string \<Rightarrow> nat list \<Rightarrow> trace \<Rightarrow> unit result" where
  "erase_loop env command [] tr = (Inr (), tr)"
| "erase_loop env command (attempt # rest) tr =
     (case run_command env command tr of (ok, tr1) \<Rightarrow>
        if ok then (Inr (), tr1)
        else if attempt < max_retries - 1 then erase_loop env command rest (time_sleep 2 tr1)
        else (Inl (FirmwareUpdateError ''Chip erase failed after multiple attempts''), tr1))"

subsection \<open>The flash loops of the VSD branch\<close>

definition vsd_speeds :: "string list" where
  "vsd_speeds = [''low'', ''medium'', ''high'']"

definition vsd_flash_cmd :: "string \<Rightarrow> string \<Rightarrow> string \<Rightarrow> string" where
  "vsd_flash_cmd chip_type speed firmware_abs_path =
     (if chip_type = ''CH32V003''
      then ''wlink flash --chip '' @ chip_type @ '' --speed low --verify '' @ firmware_abs_path
      else ''wlink flash --chip '' @ chip_type @ '' --speed '' @ speed @ '' '' @ firmware_abs_path)"

text \<open>
  Lines 521-556, the loop over \<^verbatim>\<open>range(max_retries)\<close> for one speed. The result
  \<open>Inr (Some v)\<close> is a \<^verbatim>\<open>return v\<close> out of the loops, \<open>Inr None\<close> is the loop running to
  its end.
\<close>

fun vsd_attempt_loop ::
  "env \<Rightarrow> string \<Rightarrow> string \<Rightarrow> wopts \<Rightarrow> string \<Rightarrow> nat list \<Rightarrow> trace \<Rightarrow> (bool \<times> wopts) option result" where
  "vsd_attempt_loop env chip_type firmware_path wlink_options speed [] tr = (Inr None, tr)"
| "vsd_attempt_loop env chip_type firmware_path wlink_options speed (attempt # rest) tr =
     (case os_path_exists env (abspath env firmware_path) tr of (ex, tr1) \<Rightarrow>
        if \<not> ex
        then (Inl (FirmwareUpdateError (''Firmware file not found: '' @ abspath env firmware_path)), tr1)
        else (case run_command env (vsd_flash_cmd chip_type speed (abspath env firmware_path)) tr1 of
                (ok, tr2) \<Rightarrow>
          if ok then (Inr (Some (True, wlink_options)), tr2)
          else if attempt < max_retries - 1
          then vsd_attempt_loop env chip_type firmware_path wlink_options speed rest
                 (time_sleep 2 (snd (reset_device env tr2)))
          else if speed \<noteq> last vsd_speeds \<and> chip_type \<noteq> ''CH32V003''
          then vsd_attempt_loop env chip_type firmware_path wlink_options speed rest
                 (time_sleep 2 (snd (reset_device env tr2)))
          else vsd_attempt_loop env chip_type firmware_path wlink_options speed rest tr2))"

text \<open>Lines 520-556, the loop over the speeds.\<close>

fun vsd_speed_loop ::
  "env \<Rightarrow> string \<Rightarrow> string \<Rightarrow> wopts \<Rightarrow> string list \<Rightarrow> trace \<Rightarrow> (bool \<times> wopts) option result" where
  "vsd_speed_loop env chip_type firmware_path wlink_options [] tr = (Inr None, tr)"
| "vsd_speed_loop env chip_type firmware_path wlink_options (speed # rest) tr =
     (case vsd_attempt_loop env chip_type firmware_path wlink_options speed [0..<max_retries] tr of
        (Inr None, tr1) \<Rightarrow> vsd_speed_loop env chip_type firmware_path wlink_options rest tr1
      | r \<Rightarrow> r)"

text \<open>Lines 480-558, the branch taken when the device type names a VSD Squadran Mini.\<close>

definition flash_vsd :: "env \<Rightarrow> string option \<Rightarrow> string \<Rightarrow> wopts \<Rightarrow> trace \<Rightarrow> (bool \<times> wopts) result" where
  "flash_vsd env actual_chip firmware_path wlink_options tr =
     (let chip_type = (case actual_chip of
                         None \<Rightarrow> ''CH32V003''
                       | Some c \<Rightarrow> if c = [] then ''CH32V003'' else c)
      in case erase_loop env (''wlink erase --method power-off --chip '' @ chip_type @ '' -v'')
                [0..<max_retries] tr of
           (Inl e, tr1) \<Rightarrow> (Inl e, tr1)
         | (Inr u, tr1) \<Rightarrow>
             (case reset_device env tr1 of (ok, tr2) \<Rightarrow>
                if \<not> ok then (Inl (FirmwareUpdateError ''Failed to reset device after erase''), tr2)
                else (case vsd_speed_loop env chip_type firmware_path wlink_options
                             (drop 0 vsd_speeds) tr2 of
                        (Inl e, tr3) \<Rightarrow> (Inl e, tr3)
                      | (Inr (Some v), tr3) \<Rightarrow> (Inr v, tr3)
                      | (Inr None, tr3) \<Rightarrow>
                          (Inl (FirmwareUpdateError ''Firmware flash failed after trying all speeds''),
                           tr3))))"

subsection \<open>The flash loops of the branch for other devices\<close>

definition other_speeds :: "string list" where
  "other_speeds = [''high'', ''medium'', ''low'']"

definition other_flash_cmd :: "string \<Rightarrow> string \<Rightarrow> string \<Rightarrow> string" where
  "other_flash_cmd flash_chip speed firmware_path =
     ''wlink flash --chip '' @ flash_chip @ '' --speed '' @ speed @ '' '' @ firmware_path"

text \<open>Lines 635-660.\<close>

fun other_attempt_loop ::
  "env \<Rightarrow> string \<Rightarrow> string \<Rightarrow> wopts \<Rightarrow> string \<Rightarrow> nat list \<Rightarrow> trace \<Rightarrow> (bool \<times> wopts) option result" where
  "other_attempt_loop env flash_chip firmware_path wlink_options speed [] tr = (Inr None, tr)"
| "other_attempt_loop env flash_chip firmware_path wlink_options speed (attempt # rest) tr =
     (case run_command env (other_flash_cmd flash_chip speed firmware_path) tr of (ok, tr1) \<Rightarrow>
        if ok then (Inr (Some (True, wlink_options)), tr1)
        else if attempt < max_retries - 1
        then other_attempt_loop env flash_chip firmware_path wlink_options speed rest (time_sleep 10 tr1)
        else if speed \<noteq> last other_speeds
        then other_attempt_loop env flash_chip firmware_path wlink_options speed rest (time_sleep 5 tr1)
        else other_attempt_loop env flash_chip firmware_path wlink_options speed rest tr1)"

text \<open>Lines 603-633: the waits for a manual power cycle before each speed.\<close>

definition power_cycle_wait :: "trace \<Rightarrow> trace" where
  "power_cycle_wait tr =
     time_sleep 5 (tr @ [Progress_wait 100 100, Progress_wait 100 50, Progress_wait 100 50])"

text \<open>Lines 602-660.\<close>

fun other_speed_loop ::
  "env \<Rightarrow> string \<Rightarrow> string \<Rightarrow> wopts \<Rightarrow> string list \<Rightarrow> trace \<Rightarrow> (bool \<times> wopts) option result" where
  "other_speed_loop env flash_chip firmware_path wlink_options [] tr = (Inr None, tr)"
| "other_speed_loop env flash_chip firmware_path wlink_options (speed # rest) tr =
     (case other_attempt_loop env flash_chip firmware_path wlink_options speed [0..<max_retries]
             (power_cycle_wait tr) of
        (Inr None, tr1) \<Rightarrow> other_speed_loop env flash_chip firmware_path wlink_options rest tr1
      | r \<Rightarrow> r)"

text \<open>
  Line 600, \<^verbatim>\<open>speeds.index(wlink_options['speed'])\<close>: a TypeError when the options are
  \<^verbatim>\<open>None\<close>, a KeyError when they hold no speed, a ValueError when the speed is not one
  of the three.
\<close>

definition start_index :: "wopts \<Rightarrow> exn + nat" where
  "start_index wlink_options =
     (case wlink_options of
        None \<Rightarrow> Inl not_subscriptable
      | Some d \<Rightarrow> (case dict_get d ''speed'' of
                    Inl e \<Rightarrow> Inl e
                  | Inr s \<Rightarrow> index_of other_speeds s))"

text \<open>Lines 560-662, the branch for the other devices.\<close>

definition flash_other :: "env \<Rightarrow> string \<Rightarrow> wopts \<Rightarrow> trace \<Rightarrow> (bool \<times> wopts) result" where
  "flash_other env firmware_path wlink_options tr =
     (case detect_chip_type env tr of
        (Inl e, tr1) \<Rightarrow> (Inl e, tr1)
      | (Inr chip_types, tr1) \<Rightarrow>
          (case dict_get chip_types ''erase_chip'' of
             Inl e \<Rightarrow> (Inl e, tr1)
           | Inr erase_chip \<Rightarrow>
          (case dict_get chip_types ''flash_chip'' of
             Inl e \<Rightarrow> (Inl e, tr1)
           | Inr flash_chip \<Rightarrow>
          (case erase_loop env (''wlink erase --method default --chip '' @ erase_chip)
                  [0..<max_retries] tr1 of
             (Inl e, tr2) \<Rightarrow> (Inl e, tr2)
           | (Inr u, tr2) \<Rightarrow>
               (let tr3 = time_sleep 5 tr2 in
                case start_index wlink_options of
                  Inl e \<Rightarrow> (Inl e, tr3)
                | Inr current_speed_index \<Rightarrow>
                    (case other_speed_loop env flash_chip firmware_path wlink_options
                            (drop current_speed_index other_speeds) tr3 of
                       (Inl e, tr4) \<Rightarrow> (Inl e, tr4)
                     | (Inr (Some v), tr4) \<Rightarrow> (Inr v, tr4)
                     | (Inr None, tr4) \<Rightarrow>
                         (Inl (FirmwareUpdateError ''Firmware flash failed after trying all speeds''),
                          tr4)))))))"

subsection \<open>flash\_device\<close>

text \<open>
  Lines 453-457: the loop runs over the keys of the dictionary that the detection
  returned, and keeps the first key found in the list of the two VSD chips.
\<close>

definition actual_chip_of :: "(string \<times> string) list \<Rightarrow> string option" where
  "actual_chip_of chip_info =
     find (\<lambda>chip_type. chip_type \<in> set [''CH32V003'', ''CH32V30X'']) (map fst chip_info)"

text \<open>Lines 460-464.\<close>

definition expected_chip_of :: "string \<Rightarrow> string option" where
  "expected_chip_of device_type =
     (if str_in ''CH32V003'' device_type then Some ''CH32V003''
      else if str_in ''CH32V30X'' device_type then Some ''CH32V30X''
      else None)"

text \<open>
  Lines 466-477: on a mismatch the user is asked; the result is the device type to go on
  with.
\<close>

definition resolve_mismatch ::
  "env \<Rightarrow> string option \<Rightarrow> string option \<Rightarrow> string \<Rightarrow> trace \<Rightarrow> string result" where
  "resolve_mismatch env expected_chip actual_chip device_type tr =
     (case (expected_chip, actual_chip) of
        (Some ec, Some ac) \<Rightarrow>
          if ec \<noteq> [] \<and> ac \<noteq> [] \<and> ec \<noteq> ac then
            (let answer = confirm_answer env (length tr); tr1 = tr @ [Ask_confirm]
             in if answer \<noteq> Some True
                then (Inl (FirmwareUpdateError
                        (''Chip type mismatch: expected '' @ ec @ '', got '' @ ac)), tr1)
                else if ac = ''CH32V003'' then (Inr ''VSD Squadran Mini (CH32V003)'', tr1)
                else if ac = ''CH32V30X'' then (Inr ''VSD Squadran Mini (CH32V30X)'', tr1)
                else (Inr device_type, tr1))
          else (Inr device_type, tr)
      | _ \<Rightarrow> (Inr device_type, tr))"

text \<open>
  Lines 446-662: the body of the \<^verbatim>\<open>try\<close> from the moment the firmware path is
  settled.
\<close>

definition flash_from_path ::
  "env \<Rightarrow> string option \<Rightarrow> wopts \<Rightarrow> string option \<Rightarrow> trace \<Rightarrow> (bool \<times> wopts) result" where
  "flash_from_path env firmware_path wlink_options device_type tr =
     (case firmware_path of
        None \<Rightarrow> (Inl (FirmwareUpdateError ''Firmware file not found''), tr)
      | Some p \<Rightarrow>
          if p = [] then (Inl (FirmwareUpdateError ''Firmware file not found''), tr)
          else (case os_path_exists env p tr of (ex, tr1) \<Rightarrow>
            if \<not> ex then (Inl (FirmwareUpdateError ''Firmware file not found''), tr1)
            else (case check_firmware_file env p tr1 of
                    (Inl e, tr2) \<Rightarrow> (Inl e, tr2)
                  | (Inr u, tr2) \<Rightarrow>
              (case detect_chip_type env tr2 of
                 (Inl e, tr3) \<Rightarrow> (Inl e, tr3)
               | (Inr chip_info, tr3) \<Rightarrow>
                 (case device_type of
                    None \<Rightarrow> (Inl not_iterable, tr3)
                  | Some d \<Rightarrow>
                    (case resolve_mismatch env (expected_chip_of d) (actual_chip_of chip_info) d tr3 of
                       (Inl e, tr4) \<Rightarrow> (Inl e, tr4)
                     | (Inr d', tr4) \<Rightarrow>
                         if str_in ''VSD Squadran Mini'' d'
                         then flash_vsd env (actual_chip_of chip_info) p wlink_options tr4
                         else flash_other env p wlink_options tr4))))))"

text \<open>Lines 443-662, the whole body of the \<^verbatim>\<open>try\<close>.\<close>

definition flash_device_body ::
  "env \<Rightarrow> string option \<Rightarrow> wopts \<Rightarrow> string option \<Rightarrow> trace \<Rightarrow> (bool \<times> wopts) result" where
  "flash_device_body env firmware_path wlink_options device_type tr =
     (if firmware_path = None \<or> firmware_path = Some []
      then (case get_firmware_path env device_type tr of
              (Inl e, tr1) \<Rightarrow> (Inl e, tr1)
            | (Inr chosen, tr1) \<Rightarrow> flash_from_path env chosen wlink_options device_type tr1)
      else flash_from_path env firmware_path wlink_options device_type tr)"

text \<open>
  Lines 664-669. Each handler prints the text of the exception between the tags
  \<^verbatim>\<open>[bold red]\<close> and \<^verbatim>\<open>[/bold red]\<close>, after a newline and a label, and then returns the
  pair of \<open>False\<close> and the options. The two tags match each other, and a tag begins
  with an opening bracket: a text without one adds no tag, and the print returns. For
  any other text rich decides; when it raises, the \<^verbatim>\<open>MarkupError\<close> leaves the handler
  and \<^verbatim>\<open>flash_device\<close>.
\<close>

definition handler_markup :: "exn \<Rightarrow> string" where
  "handler_markup e =
     [CHR 0x0A] @ ''[bold red]'' @
     (case e of
        FirmwareUpdateError msg \<Rightarrow> ''Firmware Update Error: ''
      | _ \<Rightarrow> ''Unexpected Error: '') @
     exn_text e @ ''[/bold red]''"

definition handler_print :: "env \<Rightarrow> exn \<Rightarrow> string option" where
  "handler_print env e =
     (if CHR ''['' \<in> set (exn_text e) then markup_error env (handler_markup e) else None)"

text \<open>
  Lines 442-669. \<open>Inl\<close> is an exception that leaves \<^verbatim>\<open>flash_device\<close>, \<open>Inr\<close> the pair
  it returns.
\<close>

definition flash_device ::
  "env \<Rightarrow> string option \<Rightarrow> wopts \<Rightarrow> string option \<Rightarrow> (bool \<times> wopts) result" where
  "flash_device env firmware_path wlink_options device_type =
     (case flash_device_body env firmware_path wlink_options device_type [] of
        (Inr v, tr) \<Rightarrow> (Inr v, tr)
      | (Inl e, tr) \<Rightarrow>
          (case handler_print env e of
             None \<Rightarrow> (Inr (False, wlink_options), tr)
           | Some m \<Rightarrow> (Inl (MarkupError m), tr)))"

subsection \<open>Reading a trace\<close>

definition is_erase_cmd :: "string list \<Rightarrow> bool" where
  "is_erase_cmd toks = (take 2 toks = [''wlink'', ''erase''])"

definition is_flash_cmd :: "string list \<Rightarrow> bool" where
  "is_flash_cmd toks = (take 2 toks = [''wlink'', ''flash''])"

text \<open>The token after \<^verbatim>\<open>--speed\<close> in a flash command, and the one after \<^verbatim>\<open>--method\<close> in an erase command.\<close>

definition flash_speed :: "string list \<Rightarrow> string option" where
  "flash_speed toks = (if 5 < length toks then Some (toks ! 5) else None)"

definition erase_method :: "string list \<Rightarrow> string option" where
  "erase_method toks = (if 3 < length toks then Some (toks ! 3) else None)"

fun is_exec :: "event \<Rightarrow> bool" where
  "is_exec (Exec toks ok) = True"
| "is_exec e = False"

fun is_shell :: "event \<Rightarrow> bool" where
  "is_shell (Shell s) = True"
| "is_shell e = False"

fun is_erase_event :: "event \<Rightarrow> bool" where
  "is_erase_event (Exec toks ok) = is_erase_cmd toks"
| "is_erase_event e = False"

fun is_flash_event :: "event \<Rightarrow> bool" where
  "is_flash_event (Exec toks ok) = is_flash_cmd toks"
| "is_flash_event e = False"

fun is_reset_event :: "event \<Rightarrow> bool" where
  "is_reset_event (Exec toks ok) = (toks = [''wlink'', ''reset''])"
| "is_reset_event e = False"

fun is_fs_event :: "event \<Rightarrow> bool" where
  "is_fs_event (Fs_exists p) = True"
| "is_fs_event (Fs_isfile p) = True"
| "is_fs_event (Fs_access p) = True"
| "is_fs_event e = False"

text \<open>Events that run no program, but for the status query through the shell.\<close>

fun quiet :: "event \<Rightarrow> bool" where
  "quiet (Exec toks ok) = False"
| "quiet (Shell s) = (s = ''wlink status -v'')"
| "quiet e = True"

text \<open>What a flash invocation was asked and what it answered.\<close>

fun flash_obs :: "event \<Rightarrow> string option \<times> bool" where
  "flash_obs (Exec toks ok) = (flash_speed toks, ok)"
| "flash_obs e = (None, False)"

text \<open>The checks of lines 446-453 on a path, in their order.\<close>

definition validation_events :: "string \<Rightarrow> trace" where
  "validation_events p = [Fs_exists p, Fs_exists p, Fs_isfile p, Fs_access p]"

text \<open>The four checks pass at the moments at which a session given a path makes them.\<close>

definition validated :: "env \<Rightarrow> string \<Rightarrow> bool" where
  "validated env p =
     (path_exists env 0 p \<and> path_exists env 1 p \<and> path_isfile env 2 p \<and> path_readable env 3 p)"

text \<open>
  Every flash run of a trace comes right after a check that the given path exists, and
  the check passed.
\<close>

definition checked_before :: "env \<Rightarrow> string \<Rightarrow> trace \<Rightarrow> bool" where
  "checked_before env ap tr =
     (\<forall>i<length tr. is_flash_event (tr ! i) \<longrightarrow>
        0 < i \<and> tr ! (i - 1) = Fs_exists ap \<and> path_exists env (i - 1) ap)"

definition no_space :: "string \<Rightarrow> bool" where
  "no_space w = (\<forall>c\<in>set w. \<not> is_space c)"

text \<open>A trace grown by events that all satisfy a predicate.\<close>

definition grows :: "trace \<Rightarrow> (event \<Rightarrow> bool) \<Rightarrow> trace \<Rightarrow> bool" where
  "grows tr A tr' = (\<exists>evs. tr' = tr @ evs \<and> (\<forall>e\<in>set evs. A e))"



subsection \<open>Simulated environments\<close>

text \<open>
  A world in which every path names a readable file, the status query prints the given
  text, nobody answers a prompt, rich renders every text, and the tool behaves as the
  given function says.
\<close>

definition sim_env :: "string \<Rightarrow> (nat \<Rightarrow> string list \<Rightarrow> bool) \<Rightarrow> env" where
  "sim_env out f =
     \<lparr> path_exists = (\<lambda>t p. True), path_isfile = (\<lambda>t p. True), path_readable = (\<lambda>t p. True),
       abspath = (\<lambda>p. ''/work/'' @ p), tool = f, status_stdout = (\<lambda>t. Inr out),
       confirm_answer = (\<lambda>t. None), select_answer = (\<lambda>t. None), path_answer = (\<lambda>t. None),
       saved_path = (\<lambda>t. None), markup_error = (\<lambda>m. None) \<rparr>"





definition tool_all_ok :: "nat \<Rightarrow> string list \<Rightarrow> bool" where
  "tool_all_ok t toks = True"

definition tool_low_only :: "nat \<Rightarrow> string list \<Rightarrow> bool" where
  "tool_low_only t toks = (is_erase_cmd toks \<or> is_flash_cmd toks \<and> flash_speed toks = Some ''low'')"

definition tool_no_flash :: "nat \<Rightarrow> string list \<Rightarrow> bool" where
  "tool_no_flash t toks = (\<not> is_flash_cmd toks)"



text \<open>
  A tool whose reset works at moment 6 only (the reset after the erase of a VSD session
  started with a path) and whose flash works from moment 12 on (the second attempt).
\<close>

definition tool_reset_once :: "nat \<Rightarrow> string list \<Rightarrow> bool" where
  "tool_reset_once t toks =
     (if toks = [''wlink'', ''reset''] then t = 6
      else if is_flash_cmd toks then 12 \<le> t
      else True)"

text \<open>
  A tool whose reset works at moment 6 only, and whose flash never works.
\<close>

definition tool_loop_resets_fail :: "nat \<Rightarrow> string list \<Rightarrow> bool" where
  "tool_loop_resets_fail t toks =
     (if toks = [''wlink'', ''reset''] then t = 6 else \<not> is_flash_cmd toks)"

definition opts_high :: wopts where
  "opts_high = Some [(''erase_method'', ''default''), (''speed'', ''high'')]"

definition opts_pin_rst :: wopts where
  "opts_pin_rst = Some [(''erase_method'', ''pin-rst''), (''speed'', ''high'')]"

section \<open>Auxiliary facts\<close>

subsection \<open>Traces that grow\<close>

lemma grows_refl: "grows tr A tr"
  by (simp add: grows_def)

lemma grows_append: "\<forall>e\<in>set evs. A e \<Longrightarrow> grows tr A (tr @ evs)"
  by (auto simp: grows_def)

lemma grows_snoc: "grows tr A tr' \<Longrightarrow> A e \<Longrightarrow> grows tr A (tr' @ [e])"
  by (auto simp: grows_def)

lemma grows_trans: "grows tr A tr' \<Longrightarrow> grows tr' A tr'' \<Longrightarrow> grows tr A tr''"
  by (auto simp: grows_def)

lemma grows_mono: "grows tr A tr' \<Longrightarrow> (\<And>e. A e \<Longrightarrow> B e) \<Longrightarrow> grows tr B tr'"
  by (auto simp: grows_def)

lemma grows_all: "grows tr A tr' \<Longrightarrow> \<forall>e\<in>set tr. A e \<Longrightarrow> \<forall>e\<in>set tr'. A e"
  by (auto simp: grows_def)

lemma range_max_retries: "[0..<max_retries] = [0, 1, 2]"
  by (simp add: max_retries_def upt_rec)

lemma choose_vsd_firmware_quiet:
  "grows tr quiet (snd (choose_vsd_firmware env dp tr))"
  by (simp add: choose_vsd_firmware_def os_path_exists_def Let_def grows_def
           split: option.splits)

lemma get_firmware_path_quiet:
  "grows tr quiet (snd (get_firmware_path env dt tr))"
  using choose_vsd_firmware_quiet
  by (simp add: get_firmware_path_def os_path_exists_def Let_def grows_def
           split: option.splits prod.splits)

lemma actual_chip_of_configs: "actual_chip_of (chip_configs c) = None"
  by (simp add: actual_chip_of_def chip_configs_def)

lemma find_in_set: "find P xs = Some x \<Longrightarrow> x \<in> set xs"
  by (induction xs) (auto split: if_splits)

lemma detect_chip_type_cases:
  "detect_chip_type env tr = (r, tr') \<Longrightarrow>
   tr' = tr @ [Shell ''wlink status -v''] \<and>
   ((\<exists>msg. r = Inl (FirmwareUpdateError msg)) \<or> (\<exists>c\<in>set chip_ids. r = Inr (chip_configs c)))"
  by (auto simp: detect_chip_type_def Let_def split: sum.splits option.splits if_splits
           dest: find_in_set) (simp_all add: chip_ids_def)

lemma resolve_mismatch_None: "resolve_mismatch env ec None d tr = (Inr d, tr)"
  by (simp add: resolve_mismatch_def split: option.splits)

subsection \<open>Tokens of the commands\<close>

lemma split_acc_word:
  "no_space w \<Longrightarrow> is_space c \<Longrightarrow> a @ w \<noteq> [] \<Longrightarrow>
   split_acc a (w @ c # rest) = (a @ w) # split_acc [] rest"
  by (induction w arbitrary: a) (auto simp: no_space_def)

lemma is_space_blank: "is_space (CHR '' '')"
  by (simp add: is_space_def)

lemma chip_ids_no_space: "c \<in> set chip_ids \<Longrightarrow> no_space c \<and> c \<noteq> []"
  by (auto simp: chip_ids_def no_space_def is_space_def)

lemma other_speeds_no_space: "s \<in> set other_speeds \<Longrightarrow> no_space s \<and> s \<noteq> []"
  by (auto simp: other_speeds_def no_space_def is_space_def)

lemma other_flash_tokens:
  assumes "no_space c" "c \<noteq> []" "no_space s" "s \<noteq> []"
  shows "str_split (other_flash_cmd c s p) =
         [''wlink'', ''flash'', ''--chip'', c, ''--speed'', s] @ str_split p"
proof -
  have "str_split (other_flash_cmd c s p) =
        ''wlink'' # ''flash'' # ''--chip'' # split_acc [] (c @ CHR '' '' # (''--speed '' @ s @ '' '' @ p))"
    by (simp add: str_split_def is_space_def other_flash_cmd_def)
  also have "split_acc [] (c @ CHR '' '' # (''--speed '' @ s @ '' '' @ p)) =
             c # split_acc [] (''--speed '' @ s @ '' '' @ p)"
    using split_acc_word[OF assms(1) is_space_blank, of "[]"] assms(2) by simp
  also have "split_acc [] (''--speed '' @ s @ '' '' @ p) = ''--speed'' # split_acc [] (s @ CHR '' '' # p)"
    by (simp add: is_space_def)
  also have "split_acc [] (s @ CHR '' '' # p) = s # split_acc [] p"
    using split_acc_word[OF assms(3) is_space_blank, of "[]"] assms(4) by simp
  finally show ?thesis by (simp add: str_split_def)
qed

lemma other_flash_is_flash: "is_flash_cmd (str_split (other_flash_cmd c s p))"
  by (simp add: str_split_def is_space_def other_flash_cmd_def is_flash_cmd_def)

lemma vsd_flash_is_flash: "is_flash_cmd (str_split (vsd_flash_cmd c s p))"
  by (simp add: str_split_def is_space_def vsd_flash_cmd_def is_flash_cmd_def)

lemma erase_default_is_erase:
  "is_erase_cmd (str_split (''wlink erase --method default --chip '' @ c))"
  by (simp add: str_split_def is_space_def is_erase_cmd_def)

lemma erase_power_off_is_erase:
  "is_erase_cmd (str_split (''wlink erase --method power-off --chip '' @ c @ '' -v''))"
  by (simp add: str_split_def is_space_def is_erase_cmd_def)

lemma erase_not_flash: "is_erase_cmd toks \<Longrightarrow> \<not> is_flash_cmd toks"
  by (auto simp: is_erase_cmd_def is_flash_cmd_def)



lemma erase_loop_unfold:
  "erase_loop env cmd [0..<max_retries] tr =
     (if tool env (length tr) (str_split cmd)
      then (Inr (), tr @ [Exec (str_split cmd) True])
      else if tool env (length tr + 2) (str_split cmd)
      then (Inr (), tr @ [Exec (str_split cmd) False, Sleep 2, Exec (str_split cmd) True])
      else if tool env (length tr + 4) (str_split cmd)
      then (Inr (), tr @ [Exec (str_split cmd) False, Sleep 2, Exec (str_split cmd) False, Sleep 2,
                          Exec (str_split cmd) True])
      else (Inl (FirmwareUpdateError ''Chip erase failed after multiple attempts''),
            tr @ [Exec (str_split cmd) False, Sleep 2, Exec (str_split cmd) False, Sleep 2,
                  Exec (str_split cmd) False]))"
  unfolding range_max_retries
  by (simp add: run_command_def time_sleep_def max_retries_def Let_def eval_nat_numeral)

lemma erase_loop_grows:
  "grows tr (\<lambda>e. e = Sleep 2 \<or> (\<exists>ok. e = Exec (str_split cmd) ok))
     (snd (erase_loop env cmd [0..<max_retries] tr))"
  by (auto simp: erase_loop_unfold grows_def)

lemma reset_device_grows:
  "grows tr (\<lambda>e. is_reset_event e \<or> e = Progress_wait 50 100) (snd (reset_device env tr))"
  by (simp add: reset_device_def Let_def grows_def)

lemma grows_step: "grows (tr @ evs) A tr' \<Longrightarrow> \<forall>e\<in>set evs. A e \<Longrightarrow> grows tr A tr'"
  by (auto simp: grows_def)

lemma other_attempt_loop_grows:
  "grows tr (\<lambda>e. is_flash_event e \<or> e = Sleep 10 \<or> e = Sleep 5)
     (snd (other_attempt_loop env c p opts s as tr))"
proof (induction as arbitrary: tr s)
  case Nil
  show ?case by (simp add: grows_refl)
next
  case (Cons a as)
  show ?case
    by (auto simp: run_command_def Let_def time_sleep_def other_flash_is_flash
             intro!: grows_step[OF Cons.IH] grows_append)
qed

lemma other_speed_loop_grows:
  "grows tr (\<lambda>e. is_flash_event e \<or> (\<exists>n. e = Sleep n) \<or> (\<exists>k ms. e = Progress_wait k ms))
     (snd (other_speed_loop env c p opts ss tr))"
proof (induction ss arbitrary: tr)
  case Nil
  show ?case by (simp add: grows_refl)
next
  case (Cons s ss)
  let ?A = "\<lambda>e. is_flash_event e \<or> (\<exists>n. e = Sleep n) \<or> (\<exists>k ms. e = Progress_wait k ms)"
  let ?r = "other_attempt_loop env c p opts s [0..<max_retries] (power_cycle_wait tr)"
  have "grows tr ?A (power_cycle_wait tr)"
    by (simp add: power_cycle_wait_def time_sleep_def grows_def)
  moreover have "grows (power_cycle_wait tr) ?A (snd ?r)"
    by (rule grows_mono[OF other_attempt_loop_grows]) auto
  ultimately have g: "grows tr ?A (snd ?r)"
    by (rule grows_trans)
  show ?case
  proof (cases ?r)
    case (Pair r tr1)
    with g have g1: "grows tr ?A tr1" by simp
    show ?thesis
      using Pair g1 grows_trans[OF g1 Cons.IH[of tr1]]
      by (auto split: sum.splits option.splits)
  qed
qed

lemma vsd_attempt_loop_grows:
  "grows tr (\<lambda>e. e = Fs_exists (abspath env p) \<or> is_flash_event e \<or> is_reset_event e \<or>
                 e = Progress_wait 50 100 \<or> e = Sleep 2)
     (snd (vsd_attempt_loop env c p opts s as tr))"
proof (induction as arbitrary: tr s c)
  case Nil
  show ?case by (simp add: grows_refl)
next
  case (Cons a as)
  show ?case
    by (auto simp: run_command_def os_path_exists_def reset_device_def Let_def time_sleep_def
                   vsd_flash_is_flash
             intro!: grows_step[OF Cons.IH] grows_append)
qed

lemma vsd_speed_loop_grows:
  "grows tr (\<lambda>e. e = Fs_exists (abspath env p) \<or> is_flash_event e \<or> is_reset_event e \<or>
                 e = Progress_wait 50 100 \<or> e = Sleep 2)
     (snd (vsd_speed_loop env c p opts ss tr))"
proof (induction ss arbitrary: tr)
  case Nil
  show ?case by (simp add: grows_refl)
next
  case (Cons s ss)
  let ?r = "vsd_attempt_loop env c p opts s [0..<max_retries] tr"
  show ?case
  proof (cases ?r)
    case (Pair r tr1)
    with vsd_attempt_loop_grows[of tr env p c opts s "[0..<max_retries]"]
    have g1: "grows tr (\<lambda>e. e = Fs_exists (abspath env p) \<or> is_flash_event e \<or> is_reset_event e \<or>
                 e = Progress_wait 50 100 \<or> e = Sleep 2) tr1" by simp
    show ?thesis
      using Pair g1 grows_trans[OF g1 Cons.IH[of tr1]]
      by (auto split: sum.splits option.splits)
  qed
qed

subsection \<open>The ways through the body\<close>

lemma flash_from_path_unfold:
  assumes "p \<noteq> []"
  shows "flash_from_path env (Some p) opts dt tr =
    (if \<not> path_exists env (length tr) p
     then (Inl (FirmwareUpdateError ''Firmware file not found''), tr @ [Fs_exists p])
     else if \<not> path_exists env (length tr + 1) p
     then (Inl (FirmwareUpdateError (''Firmware file not found: '' @ p)), tr @ [Fs_exists p, Fs_exists p])
     else if \<not> path_isfile env (length tr + 2) p
     then (Inl (FirmwareUpdateError (''Not a valid file: '' @ p)),
           tr @ [Fs_exists p, Fs_exists p, Fs_isfile p])
     else if \<not> path_readable env (length tr + 3) p
     then (Inl (FirmwareUpdateError (''No permission to read firmware file: '' @ p)),
           tr @ validation_events p)
     else (case detect_chip_type env (tr @ validation_events p) of
             (Inl e, tr3) \<Rightarrow> (Inl e, tr3)
           | (Inr chip_info, tr3) \<Rightarrow>
               (case dt of
                  None \<Rightarrow> (Inl not_iterable, tr3)
                | Some d \<Rightarrow>
                    if str_in ''VSD Squadran Mini'' d then flash_vsd env None p opts tr3
                    else flash_other env p opts tr3)))"
proof -
  have det: "\<And>tr2 ci tr3. detect_chip_type env tr2 = (Inr ci, tr3) \<Longrightarrow> actual_chip_of ci = None"
    using detect_chip_type_cases actual_chip_of_configs by fastforce
  show ?thesis
    using assms
    by (auto simp: flash_from_path_def check_firmware_file_def os_path_exists_def
                   os_path_isfile_def os_access_def validation_events_def
                   resolve_mismatch_None eval_nat_numeral
             split: prod.splits sum.splits option.splits dest: det)
qed

lemma validation_events_quiet: "\<forall>ev\<in>set (validation_events p). quiet ev"
  by (simp add: validation_events_def)

lemma flash_from_path_cases:
  assumes q: "\<forall>ev\<in>set tr0. quiet ev"
  obtains (early) e tr where "flash_from_path env fpo opts dt tr0 = (Inl e, tr)" "\<forall>ev\<in>set tr. quiet ev"
  | (vsd) p d tr where "dt = Some d" "str_in ''VSD Squadran Mini'' d"
      "flash_from_path env fpo opts dt tr0 = flash_vsd env None p opts tr" "\<forall>ev\<in>set tr. quiet ev"
  | (other) p d tr where "dt = Some d" "\<not> str_in ''VSD Squadran Mini'' d"
      "flash_from_path env fpo opts dt tr0 = flash_other env p opts tr" "\<forall>ev\<in>set tr. quiet ev"
proof (cases fpo)
  case None
  then show ?thesis using q early by (simp add: flash_from_path_def)
next
  case (Some p)
  show ?thesis
  proof (cases "p = []")
    case True
    then show ?thesis using Some q early by (simp add: flash_from_path_def)
  next
    case False
    note unf = flash_from_path_unfold[OF False, of env opts dt tr0]
    obtain r tr3 where det: "detect_chip_type env (tr0 @ validation_events p) = (r, tr3)"
      by (cases "detect_chip_type env (tr0 @ validation_events p)")
    from detect_chip_type_cases[OF det]
    have tr3: "tr3 = tr0 @ validation_events p @ [Shell ''wlink status -v'']" by simp
    have q3: "\<forall>ev\<in>set tr3. quiet ev"
      using q validation_events_quiet tr3 by auto
    have qv: "\<forall>ev\<in>set (tr0 @ validation_events p). quiet ev"
      using q validation_events_quiet by auto
    consider (a) "\<not> path_exists env (length tr0) p"
      | (b) "path_exists env (length tr0) p" "\<not> path_exists env (length tr0 + 1) p"
      | (c) "path_exists env (length tr0) p" "path_exists env (length tr0 + 1) p"
            "\<not> path_isfile env (length tr0 + 2) p"
      | (d) "path_exists env (length tr0) p" "path_exists env (length tr0 + 1) p"
            "path_isfile env (length tr0 + 2) p" "\<not> path_readable env (length tr0 + 3) p"
      | (e) "path_exists env (length tr0) p" "path_exists env (length tr0 + 1) p"
            "path_isfile env (length tr0 + 2) p" "path_readable env (length tr0 + 3) p"
      by blast
    then show ?thesis
    proof cases
      case a
      then have "flash_from_path env fpo opts dt tr0 =
                 (Inl (FirmwareUpdateError ''Firmware file not found''), tr0 @ [Fs_exists p])"
        using unf Some by simp
      then show ?thesis by (rule early) (use q in auto)
    next
      case b
      then have "flash_from_path env fpo opts dt tr0 =
                 (Inl (FirmwareUpdateError (''Firmware file not found: '' @ p)),
                  tr0 @ [Fs_exists p, Fs_exists p])"
        using unf Some by simp
      then show ?thesis by (rule early) (use q in auto)
    next
      case c
      then have "flash_from_path env fpo opts dt tr0 =
                 (Inl (FirmwareUpdateError (''Not a valid file: '' @ p)),
                  tr0 @ [Fs_exists p, Fs_exists p, Fs_isfile p])"
        using unf Some by simp
      then show ?thesis by (rule early) (use q in auto)
    next
      case d
      then have "flash_from_path env fpo opts dt tr0 =
                 (Inl (FirmwareUpdateError (''No permission to read firmware file: '' @ p)),
                  tr0 @ validation_events p)"
        using unf Some by simp
      then show ?thesis by (rule early) (use qv in auto)
    next
      case e
      show ?thesis
      proof (cases r)
        case (Inl x)
        then have "flash_from_path env fpo opts dt tr0 = (Inl x, tr3)"
          using unf Some e det by simp
        then show ?thesis by (rule early) (use q3 in auto)
      next
        case (Inr ci)
        show ?thesis
        proof (cases dt)
          case None
          then have "flash_from_path env fpo opts dt tr0 = (Inl not_iterable, tr3)"
            using unf \<open>fpo = Some p\<close> e det Inr by simp
          then show ?thesis by (rule early) (use q3 in auto)
        next
          case (Some d)
          show ?thesis
          proof (cases "str_in ''VSD Squadran Mini'' d")
            case True
            show ?thesis
              by (rule vsd[OF Some True _ q3]) (use unf \<open>fpo = Some p\<close> e det Inr Some True in simp)
          next
            case False
            show ?thesis
              by (rule other[OF Some False _ q3]) (use unf \<open>fpo = Some p\<close> e det Inr Some False in simp)
          qed
        qed
      qed
    qed
  qed
qed

lemma body_cases:
  obtains (early) e tr where "flash_device_body env fp opts dt [] = (Inl e, tr)" "\<forall>ev\<in>set tr. quiet ev"
  | (vsd) p d tr where "dt = Some d" "str_in ''VSD Squadran Mini'' d"
      "flash_device_body env fp opts dt [] = flash_vsd env None p opts tr" "\<forall>ev\<in>set tr. quiet ev"
  | (other) p d tr where "dt = Some d" "\<not> str_in ''VSD Squadran Mini'' d"
      "flash_device_body env fp opts dt [] = flash_other env p opts tr" "\<forall>ev\<in>set tr. quiet ev"
proof (cases "fp = None \<or> fp = Some []")
  case False
  then have b: "flash_device_body env fp opts dt [] = flash_from_path env fp opts dt []"
    by (auto simp: flash_device_body_def)
  show ?thesis
    by (rule flash_from_path_cases[of "[]" env fp opts dt]) (use b early vsd other in auto)
next
  case True
  obtain r tr1 where g: "get_firmware_path env dt [] = (r, tr1)"
    by (cases "get_firmware_path env dt []")
  have q1: "\<forall>ev\<in>set tr1. quiet ev"
    using get_firmware_path_quiet[of "[]" env dt] g by (auto simp: grows_def)
  show ?thesis
  proof (cases r)
    case (Inl e)
    then have "flash_device_body env fp opts dt [] = (Inl e, tr1)"
      using True g by (auto simp: flash_device_body_def)
    then show ?thesis by (rule early) (use q1 in auto)
  next
    case (Inr chosen)
    then have b: "flash_device_body env fp opts dt [] = flash_from_path env chosen opts dt tr1"
      using True g by (auto simp: flash_device_body_def)
    show ?thesis
      by (rule flash_from_path_cases[OF q1, of env chosen opts dt]) (use b early vsd other in auto)
  qed
qed

subsection \<open>What the loops return\<close>

lemma vsd_attempt_loop_ret:
  "vsd_attempt_loop env c p opts s as tr = (Inr (Some v), tr') \<Longrightarrow> v = (True, opts)"
  by (induction as arbitrary: tr) (auto split: prod.splits if_splits)

lemma vsd_speed_loop_ret:
  "vsd_speed_loop env c p opts ss tr = (Inr (Some v), tr') \<Longrightarrow> v = (True, opts)"
  by (induction ss arbitrary: tr)
     (auto split: prod.splits sum.splits option.splits dest: vsd_attempt_loop_ret)

lemma other_attempt_loop_ret:
  "other_attempt_loop env c p opts s as tr = (Inr (Some v), tr') \<Longrightarrow> v = (True, opts)"
  by (induction as arbitrary: tr) (auto split: prod.splits if_splits)

lemma other_speed_loop_ret:
  "other_speed_loop env c p opts ss tr = (Inr (Some v), tr') \<Longrightarrow> v = (True, opts)"
  by (induction ss arbitrary: tr)
     (auto split: prod.splits sum.splits option.splits dest: other_attempt_loop_ret)

lemma flash_vsd_ret:
  "flash_vsd env ac p opts tr = (Inr v, tr') \<Longrightarrow> v = (True, opts)"
  by (auto simp: flash_vsd_def Let_def split: prod.splits sum.splits option.splits if_splits
           dest: vsd_speed_loop_ret)

lemma flash_other_ret:
  "flash_other env p opts tr = (Inr v, tr') \<Longrightarrow> v = (True, opts)"
  by (auto simp: flash_other_def Let_def split: prod.splits sum.splits option.splits if_splits
           dest: other_speed_loop_ret)

lemma flash_from_path_ret:
  "flash_from_path env fp opts dt tr = (Inr v, tr') \<Longrightarrow> v = (True, opts)"
  unfolding flash_from_path_def
  by (auto split: prod.splits sum.splits option.splits if_splits
           dest: flash_vsd_ret flash_other_ret)

lemma flash_device_body_ret:
  "flash_device_body env fp opts dt tr = (Inr v, tr') \<Longrightarrow> v = (True, opts)"
  unfolding flash_device_body_def
  by (auto split: prod.splits sum.splits if_splits dest: flash_from_path_ret)


subsection \<open>An erase that never works\<close>

lemma quiet_not_exec: "quiet e \<Longrightarrow> \<not> is_exec e"
  by (cases e) auto

lemma not_exec_not_flash: "\<not> is_exec e \<Longrightarrow> \<not> is_flash_event e"
  by (cases e) auto





subsection \<open>A flash that works at the low speed only\<close>

lemma range_three: "[0..<3] = [0, 1, 2]"
  by (simp add: upt_rec)

lemma start_index_high:
  "dict_get o' ''speed'' = Inr ''high'' \<Longrightarrow> start_index (Some o') = Inr 0"
  by (simp add: start_index_def other_speeds_def)

lemma other_flash_obs:
  assumes "c \<in> set chip_ids" "s \<in> set other_speeds"
  shows "is_flash_cmd (str_split (other_flash_cmd c s p))"
    and "flash_speed (str_split (other_flash_cmd c s p)) = Some s"
  using other_flash_tokens[of c s p] chip_ids_no_space[OF assms(1)] other_speeds_no_space[OF assms(2)]
  by (simp_all add: is_flash_cmd_def flash_speed_def)

lemma other_speed_loop_low_only:
  assumes c: "c \<in> set chip_ids"
      and h1: "\<forall>t toks. is_flash_cmd toks \<and> (flash_speed toks = Some ''high'' \<or>
                 flash_speed toks = Some ''medium'') \<longrightarrow> \<not> tool env t toks"
      and h2: "\<forall>t toks. is_flash_cmd toks \<and> flash_speed toks = Some ''low'' \<longrightarrow> tool env t toks"
  shows "\<exists>evs. other_speed_loop env c p opts other_speeds tr = (Inr (Some (True, opts)), tr @ evs) \<and>
           map flash_obs (filter is_flash_event evs) =
             [(Some ''high'', False), (Some ''high'', False), (Some ''high'', False),
              (Some ''medium'', False), (Some ''medium'', False), (Some ''medium'', False),
              (Some ''low'', True)]"
proof -
  let ?H = "str_split (other_flash_cmd c ''high'' p)"
  let ?M = "str_split (other_flash_cmd c ''medium'' p)"
  let ?L = "str_split (other_flash_cmd c ''low'' p)"
  have H: "is_flash_cmd ?H" "flash_speed ?H = Some ''high''"
    by (rule other_flash_obs[OF c], simp add: other_speeds_def)+
  have M: "is_flash_cmd ?M" "flash_speed ?M = Some ''medium''"
    by (rule other_flash_obs[OF c], simp add: other_speeds_def)+
  have L: "is_flash_cmd ?L" "flash_speed ?L = Some ''low''"
    by (rule other_flash_obs[OF c], simp add: other_speeds_def)+
  have fh: "\<And>t. \<not> tool env t ?H" using h1 H by blast
  have fm: "\<And>t. \<not> tool env t ?M" using h1 M by blast
  have fl: "\<And>t. tool env t ?L" using h2 L by blast
  let ?W = "[Progress_wait 100 100, Progress_wait 100 50, Progress_wait 100 50, Sleep 5]"
  let ?evs = "?W @ [Exec ?H False, Sleep 10, Exec ?H False, Sleep 10, Exec ?H False, Sleep 5] @
              ?W @ [Exec ?M False, Sleep 10, Exec ?M False, Sleep 10, Exec ?M False, Sleep 5] @
              ?W @ [Exec ?L True]"
  have a: "other_speed_loop env c p opts other_speeds tr = (Inr (Some (True, opts)), tr @ ?evs)"
    unfolding other_speeds_def
    using fh fm fl
    by (simp add: run_command_def time_sleep_def power_cycle_wait_def max_retries_def Let_def
                  range_three other_speeds_def)
  have b: "map flash_obs (filter is_flash_event ?evs) =
             [(Some ''high'', False), (Some ''high'', False), (Some ''high'', False),
              (Some ''medium'', False), (Some ''medium'', False), (Some ''medium'', False),
              (Some ''low'', True)]"
    using H M L by simp
  show ?thesis by (rule exI[of _ ?evs], rule conjI, rule a, rule b)
qed

lemma erase_loop_no_flash:
  assumes "is_erase_cmd (str_split cmd)"
  shows "\<exists>evs. snd (erase_loop env cmd [0..<max_retries] tr) = tr @ evs \<and>
               (\<forall>e\<in>set evs. \<not> is_flash_event e)"
proof -
  from erase_loop_grows[of tr cmd env] obtain evs where
    a: "snd (erase_loop env cmd [0..<max_retries] tr) = tr @ evs" and
    b: "\<forall>e\<in>set evs. e = Sleep 2 \<or> (\<exists>ok. e = Exec (str_split cmd) ok)"
    by (auto simp: grows_def)
  have "\<not> is_flash_event e" if "e \<in> set evs" for e
    using b that erase_not_flash[OF assms] by auto
  with a show ?thesis by blast
qed

lemma flash_other_low_only:
  assumes si: "start_index opts = Inr 0"
      and h1: "\<forall>t toks. is_flash_cmd toks \<and> (flash_speed toks = Some ''high'' \<or>
                 flash_speed toks = Some ''medium'') \<longrightarrow> \<not> tool env t toks"
      and h2: "\<forall>t toks. is_flash_cmd toks \<and> flash_speed toks = Some ''low'' \<longrightarrow> tool env t toks"
  shows "(\<exists>e evs. flash_other env p opts tr = (Inl e, tr @ evs) \<and>
                  (\<forall>ev\<in>set evs. \<not> is_flash_event ev)) \<or>
         (\<exists>evs. flash_other env p opts tr = (Inr (True, opts), tr @ evs) \<and>
            map flash_obs (filter is_flash_event evs) =
             [(Some ''high'', False), (Some ''high'', False), (Some ''high'', False),
              (Some ''medium'', False), (Some ''medium'', False), (Some ''medium'', False),
              (Some ''low'', True)])"
proof -
  obtain r tr1 where det: "detect_chip_type env tr = (r, tr1)"
    by (cases "detect_chip_type env tr")
  from detect_chip_type_cases[OF det]
  have tr1: "tr1 = tr @ [Shell ''wlink status -v'']"
    and r: "(\<exists>msg. r = Inl (FirmwareUpdateError msg)) \<or> (\<exists>c\<in>set chip_ids. r = Inr (chip_configs c))"
    by auto
  from r show ?thesis
  proof
    assume "\<exists>msg. r = Inl (FirmwareUpdateError msg)"
    then have "\<exists>e. flash_other env p opts tr = (Inl e, tr @ [Shell ''wlink status -v''])"
      using det tr1 by (auto simp: flash_other_def)
    then show ?thesis by auto
  next
    assume "\<exists>c\<in>set chip_ids. r = Inr (chip_configs c)"
    then obtain c where cin: "c \<in> set chip_ids" and c: "r = Inr (chip_configs c)" by blast
    let ?cmd = "''wlink erase --method default --chip '' @ c"
    obtain re tr2 where er: "erase_loop env ?cmd [0..<max_retries] tr1 = (re, tr2)"
      by (cases "erase_loop env ?cmd [0..<max_retries] tr1")
    from erase_loop_no_flash[OF erase_default_is_erase, of env c tr1] er
    obtain ev2 where tr2: "tr2 = tr1 @ ev2" and nf2: "\<forall>e\<in>set ev2. \<not> is_flash_event e"
      by auto
    show ?thesis
    proof (cases re)
      case (Inl e)
      then have a: "flash_other env p opts tr = (Inl e, tr @ ([Shell ''wlink status -v''] @ ev2))"
        unfolding flash_other_def det c using er tr1 tr2
        by (simp add: chip_configs_def dict_get_def)
      have b: "\<forall>ev\<in>set ([Shell ''wlink status -v''] @ ev2). \<not> is_flash_event ev"
        using nf2 by auto
      show ?thesis by (rule disjI1, rule exI[of _ e], rule exI[of _ "[Shell ''wlink status -v''] @ ev2"], rule conjI, rule a, rule b)
    next
      case (Inr u)
      from other_speed_loop_low_only[OF cin h1 h2, of p opts "time_sleep 5 tr2"]
      obtain evs where
        l: "other_speed_loop env c p opts other_speeds (time_sleep 5 tr2) =
              (Inr (Some (True, opts)), time_sleep 5 tr2 @ evs)" and
        m: "map flash_obs (filter is_flash_event evs) =
             [(Some ''high'', False), (Some ''high'', False), (Some ''high'', False),
              (Some ''medium'', False), (Some ''medium'', False), (Some ''medium'', False),
              (Some ''low'', True)]" by (elim exE conjE) (rule that)
      have a: "flash_other env p opts tr =
              (Inr (True, opts), tr @ ([Shell ''wlink status -v''] @ ev2 @ [Sleep 5] @ evs))"
        unfolding flash_other_def det c using er Inr l si tr1 tr2
        by (simp add: chip_configs_def dict_get_def Let_def time_sleep_def)
      have b: "map flash_obs (filter is_flash_event ([Shell ''wlink status -v''] @ ev2 @ [Sleep 5] @ evs)) =
             [(Some ''high'', False), (Some ''high'', False), (Some ''high'', False),
              (Some ''medium'', False), (Some ''medium'', False), (Some ''medium'', False),
              (Some ''low'', True)]"
        using nf2 m by (simp add: filter_empty_conv[THEN iffD2])
      show ?thesis by (rule disjI2, rule exI[of _ "[Shell ''wlink status -v''] @ ev2 @ [Sleep 5] @ evs"], rule conjI, rule a, rule b)
    qed
  qed
qed

lemma filter_none: "\<forall>e\<in>set xs. \<not> P e \<Longrightarrow> filter P xs = []"
  by (induction xs) auto


subsection \<open>The events of the two branches\<close>

lemma erase_loop_grows_erase:
  assumes "is_erase_cmd (str_split cmd)" "erase_loop env cmd [0..<max_retries] tr = (re, tr1)"
  shows "grows tr (\<lambda>e. is_erase_event e \<or> e = Sleep 2) tr1"
proof -
  from erase_loop_grows[of tr cmd env] assms(2) obtain evs where
    a: "tr1 = tr @ evs" and
    b: "\<forall>e\<in>set evs. e = Sleep 2 \<or> (\<exists>ok. e = Exec (str_split cmd) ok)"
    by (auto simp: grows_def)
  have "is_erase_event e \<or> e = Sleep 2" if "e \<in> set evs" for e
    using b that assms(1) by auto
  with a show ?thesis by (auto simp: grows_def)
qed

lemma flash_vsd_grows:
  "grows tr (\<lambda>e. is_erase_event e \<or> e = Sleep 2 \<or> is_reset_event e \<or> e = Progress_wait 50 100 \<or>
                 e = Fs_exists (abspath env p) \<or> is_flash_event e)
     (snd (flash_vsd env ac p opts tr))"
proof -
  let ?A = "\<lambda>e. is_erase_event e \<or> e = Sleep 2 \<or> is_reset_event e \<or> e = Progress_wait 50 100 \<or>
                 e = Fs_exists (abspath env p) \<or> is_flash_event e"
  let ?c = "case ac of None \<Rightarrow> ''CH32V003'' | Some c \<Rightarrow> if c = [] then ''CH32V003'' else c"
  let ?cmd = "''wlink erase --method power-off --chip '' @ ?c @ '' -v''"
  obtain re tr1 where er: "erase_loop env ?cmd [0..<max_retries] tr = (re, tr1)"
    by (cases "erase_loop env ?cmd [0..<max_retries] tr")
  obtain ok tr2 where rs: "reset_device env tr1 = (ok, tr2)"
    by (cases "reset_device env tr1")
  obtain r3 tr3 where sl: "vsd_speed_loop env ?c p opts (drop 0 vsd_speeds) tr2 = (r3, tr3)"
    by (cases "vsd_speed_loop env ?c p opts (drop 0 vsd_speeds) tr2")
  have e: "is_erase_cmd (str_split ?cmd)" by (rule erase_power_off_is_erase)
  have g1: "grows tr ?A tr1"
    by (rule grows_mono[OF erase_loop_grows_erase[OF e er]]) blast
  have "grows tr1 (\<lambda>e. is_reset_event e \<or> e = Progress_wait 50 100) tr2"
    using reset_device_grows[of tr1 env] rs by simp
  then have g2: "grows tr1 ?A tr2"
    by (rule grows_mono) blast
  have "grows tr2 (\<lambda>e. e = Fs_exists (abspath env p) \<or> is_flash_event e \<or> is_reset_event e \<or>
                 e = Progress_wait 50 100 \<or> e = Sleep 2) tr3"
    using vsd_speed_loop_grows[of tr2 env p ?c opts "drop 0 vsd_speeds"] sl by simp
  then have g3: "grows tr2 ?A tr3"
    by (rule grows_mono) blast
  have "snd (flash_vsd env ac p opts tr) = tr1 \<or> snd (flash_vsd env ac p opts tr) = tr2 \<or>
        snd (flash_vsd env ac p opts tr) = tr3"
    using er rs sl by (auto simp: flash_vsd_def Let_def split: sum.splits option.splits)
  then show ?thesis
    using g1 grows_trans[OF g1 g2] grows_trans[OF grows_trans[OF g1 g2] g3] by auto
qed

lemma flash_other_grows:
  "grows tr (\<lambda>e. e = Shell ''wlink status -v'' \<or> is_erase_event e \<or> (\<exists>n. e = Sleep n) \<or>
                 (\<exists>k ms. e = Progress_wait k ms) \<or> is_flash_event e)
     (snd (flash_other env p opts tr))"
proof -
  let ?A = "\<lambda>e. e = Shell ''wlink status -v'' \<or> is_erase_event e \<or> (\<exists>n. e = Sleep n) \<or>
                 (\<exists>k ms. e = Progress_wait k ms) \<or> is_flash_event e"
  obtain r tr1 where det: "detect_chip_type env tr = (r, tr1)"
    by (cases "detect_chip_type env tr")
  from detect_chip_type_cases[OF det]
  have tr1: "tr1 = tr @ [Shell ''wlink status -v'']"
    and r: "(\<exists>msg. r = Inl (FirmwareUpdateError msg)) \<or> (\<exists>c\<in>set chip_ids. r = Inr (chip_configs c))"
    by auto
  have g1: "grows tr ?A tr1" using tr1 by (simp add: grows_def)
  from r show ?thesis
  proof
    assume "\<exists>msg. r = Inl (FirmwareUpdateError msg)"
    then have "snd (flash_other env p opts tr) = tr1"
      using det by (auto simp: flash_other_def)
    with g1 show ?thesis by simp
  next
    assume "\<exists>c\<in>set chip_ids. r = Inr (chip_configs c)"
    then obtain c where c: "r = Inr (chip_configs c)" by blast
    let ?cmd = "''wlink erase --method default --chip '' @ c"
    obtain re tr2 where er: "erase_loop env ?cmd [0..<max_retries] tr1 = (re, tr2)"
      by (cases "erase_loop env ?cmd [0..<max_retries] tr1")
    have e: "is_erase_cmd (str_split ?cmd)" by (rule erase_default_is_erase)
    have g2: "grows tr1 ?A tr2"
      by (rule grows_mono[OF erase_loop_grows_erase[OF e er]]) blast
    have g3: "grows tr2 ?A (time_sleep 5 tr2)" by (simp add: time_sleep_def grows_def)
    have g4: "grows (time_sleep 5 tr2) ?A (snd (other_speed_loop env c p opts ss (time_sleep 5 tr2)))" for ss
      by (rule grows_mono[OF other_speed_loop_grows]) auto
    note g12 = grows_trans[OF g1 g2]
    note g13 = grows_trans[OF g12 g3]
    note g14 = grows_trans[OF g13 g4]
    have dg: "dict_get (chip_configs c) ''erase_chip'' = Inr c"
             "dict_get (chip_configs c) ''flash_chip'' = Inr c"
      by (simp_all add: chip_configs_def dict_get_def)
    have "snd (flash_other env p opts tr) = tr2 \<or> snd (flash_other env p opts tr) = time_sleep 5 tr2 \<or>
          (\<exists>ss. snd (flash_other env p opts tr) = snd (other_speed_loop env c p opts ss (time_sleep 5 tr2)))"
    proof (cases re)
      case (Inl x)
      then have "snd (flash_other env p opts tr) = tr2"
        unfolding flash_other_def det c using er by (simp add: dg)
      then show ?thesis by simp
    next
      case (Inr u)
      show ?thesis
      proof (cases "start_index opts")
        case (Inl x)
        then have "snd (flash_other env p opts tr) = time_sleep 5 tr2"
          unfolding flash_other_def det c using er Inr by (simp add: dg Let_def)
        then show ?thesis by simp
      next
        case (Inr i)
        have "snd (flash_other env p opts tr) =
              snd (other_speed_loop env c p opts (drop i other_speeds) (time_sleep 5 tr2))"
          unfolding flash_other_def det c using er \<open>re = Inr u\<close> Inr
          by (simp add: dg Let_def split: prod.splits sum.splits option.splits)
        then show ?thesis by blast
      qed
    qed
    then show ?thesis using g12 g13 g14 by auto
  qed
qed


subsection \<open>The check before each flash run\<close>

lemma checked_before_none:
  "\<forall>e\<in>set tr. \<not> is_flash_event e \<Longrightarrow> checked_before env ap tr"
  by (simp add: checked_before_def)

lemma checked_before_append:
  assumes "checked_before env ap tr" "\<forall>e\<in>set evs. \<not> is_flash_event e"
  shows "checked_before env ap (tr @ evs)"
  unfolding checked_before_def
proof (intro allI impI)
  fix i assume i: "i < length (tr @ evs)" and f: "is_flash_event ((tr @ evs) ! i)"
  have "i < length tr"
  proof (rule ccontr)
    assume "\<not> i < length tr"
    then have "(tr @ evs) ! i = evs ! (i - length tr)" "i - length tr < length evs"
      using i by (auto simp: nth_append)
    then have "(tr @ evs) ! i \<in> set evs" by (metis nth_mem)
    with assms(2) f show False by blast
  qed
  then have "(tr @ evs) ! i = tr ! i" "(tr @ evs) ! (i - 1) = tr ! (i - 1)"
    by (auto simp: nth_append)
  with assms(1) f \<open>i < length tr\<close>
  show "0 < i \<and> (tr @ evs) ! (i - 1) = Fs_exists ap \<and> path_exists env (i - 1) ap"
    by (simp add: checked_before_def)
qed

lemma checked_before_flash:
  assumes "checked_before env ap tr" "path_exists env (length tr) ap"
  shows "checked_before env ap (tr @ [Fs_exists ap, Exec toks ok])"
  unfolding checked_before_def
proof (intro allI impI)
  fix i assume i: "i < length (tr @ [Fs_exists ap, Exec toks ok])"
    and f: "is_flash_event ((tr @ [Fs_exists ap, Exec toks ok]) ! i)"
  let ?t = "tr @ [Fs_exists ap, Exec toks ok]"
  consider (old) "i < length tr" | (chk) "i = length tr" | (run) "i = Suc (length tr)"
    using i by fastforce
  then show "0 < i \<and> ?t ! (i - 1) = Fs_exists ap \<and> path_exists env (i - 1) ap"
  proof cases
    case old
    then have "?t ! i = tr ! i" "?t ! (i - 1) = tr ! (i - 1)"
      by (auto simp: nth_append)
    with assms(1) f old show ?thesis by (simp add: checked_before_def)
  next
    case chk
    then have "?t ! i = Fs_exists ap" by (simp add: nth_append)
    with f show ?thesis by simp
  next
    case run
    then have "?t ! (i - 1) = Fs_exists ap" by (simp add: nth_append)
    with run assms(2) show ?thesis by simp
  qed
qed

lemma reset_sleep_checked:
  assumes "checked_before env ap tr"
  shows "checked_before env ap (time_sleep 2 (snd (reset_device env tr)))"
proof -
  have "\<exists>evs. time_sleep 2 (snd (reset_device env tr)) = tr @ evs \<and> (\<forall>e\<in>set evs. \<not> is_flash_event e)"
    by (auto simp: reset_device_def Let_def time_sleep_def is_flash_cmd_def)
  with assms show ?thesis using checked_before_append by metis
qed

lemma vsd_attempt_loop_checked:
  "checked_before env (abspath env p) tr \<Longrightarrow>
   checked_before env (abspath env p) (snd (vsd_attempt_loop env c p opts s as tr))"
proof (induction as arbitrary: tr s c)
  case Nil
  then show ?case by simp
next
  case (Cons a as)
  let ?ap = "abspath env p"
  have n: "checked_before env ?ap (tr @ [Fs_exists ?ap])"
    by (rule checked_before_append[OF Cons.prems]) simp
  have f: "checked_before env ?ap (tr @ [Fs_exists ?ap, Exec toks ok])"
    if "path_exists env (length tr) ?ap" for toks ok
    by (rule checked_before_flash[OF Cons.prems that])
  show ?case
    using n f
    by (auto simp: os_path_exists_def run_command_def Let_def
             intro!: Cons.IH reset_sleep_checked)
qed

lemma vsd_speed_loop_checked:
  "checked_before env (abspath env p) tr \<Longrightarrow>
   checked_before env (abspath env p) (snd (vsd_speed_loop env c p opts ss tr))"
proof (induction ss arbitrary: tr)
  case Nil
  then show ?case by simp
next
  case (Cons s ss)
  let ?r = "vsd_attempt_loop env c p opts s [0..<max_retries] tr"
  have a: "checked_before env (abspath env p) (snd ?r)"
    by (rule vsd_attempt_loop_checked[OF Cons.prems])
  show ?case
  proof (cases ?r)
    case (Pair r tr1)
    with a have "checked_before env (abspath env p) tr1" by simp
    from Cons.IH[OF this] this Pair show ?thesis
      by (auto split: sum.splits option.splits)
  qed
qed

lemma erase_event_not_flash: "is_erase_event e \<Longrightarrow> \<not> is_flash_event e"
  by (cases e) (auto dest: erase_not_flash)

lemma reset_event_not_flash: "is_reset_event e \<Longrightarrow> \<not> is_flash_event e"
  by (cases e) (auto simp: is_flash_cmd_def)

lemma flash_vsd_checked:
  assumes nf: "\<forall>e\<in>set tr. \<not> is_flash_event e"
  shows "checked_before env (abspath env p) (snd (flash_vsd env ac p opts tr))"
proof -
  let ?c = "case ac of None \<Rightarrow> ''CH32V003'' | Some c \<Rightarrow> if c = [] then ''CH32V003'' else c"
  let ?cmd = "''wlink erase --method power-off --chip '' @ ?c @ '' -v''"
  obtain re tr1 where er: "erase_loop env ?cmd [0..<max_retries] tr = (re, tr1)"
    by (cases "erase_loop env ?cmd [0..<max_retries] tr")
  obtain ok tr2 where rs: "reset_device env tr1 = (ok, tr2)"
    by (cases "reset_device env tr1")
  obtain r3 tr3 where sl: "vsd_speed_loop env ?c p opts (drop 0 vsd_speeds) tr2 = (r3, tr3)"
    by (cases "vsd_speed_loop env ?c p opts (drop 0 vsd_speeds) tr2")
  have e: "is_erase_cmd (str_split ?cmd)" by (rule erase_power_off_is_erase)
  have c0: "checked_before env (abspath env p) tr" by (rule checked_before_none[OF nf])
  from erase_loop_grows_erase[OF e er] obtain ev1 where
    t1: "tr1 = tr @ ev1" and a1: "\<forall>e\<in>set ev1. is_erase_event e \<or> e = Sleep 2"
    by (auto simp: grows_def)
  have "\<forall>e\<in>set ev1. \<not> is_flash_event e" using a1 erase_event_not_flash by auto
  from checked_before_append[OF c0 this] have c1: "checked_before env (abspath env p) tr1"
    using t1 by simp
  from reset_device_grows[of tr1 env] rs obtain ev2 where
    t2: "tr2 = tr1 @ ev2" and a2: "\<forall>e\<in>set ev2. is_reset_event e \<or> e = Progress_wait 50 100"
    by (auto simp: grows_def)
  have "\<forall>e\<in>set ev2. \<not> is_flash_event e" using a2 reset_event_not_flash by auto
  from checked_before_append[OF c1 this] have c2: "checked_before env (abspath env p) tr2"
    using t2 by simp
  from vsd_speed_loop_checked[OF c2, of ?c opts "drop 0 vsd_speeds"] sl
  have c3: "checked_before env (abspath env p) tr3" by simp
  have "snd (flash_vsd env ac p opts tr) = tr1 \<or> snd (flash_vsd env ac p opts tr) = tr2 \<or>
        snd (flash_vsd env ac p opts tr) = tr3"
    using er rs sl by (auto simp: flash_vsd_def Let_def split: sum.splits option.splits)
  then show ?thesis using c1 c2 c3 by auto
qed

subsection \<open>The ways through the body of a session given a path\<close>

lemma body_given_cases:
  assumes p: "p \<noteq> []"
  obtains (invalid) e n where
      "flash_device_body env (Some p) opts dt [] = (Inl e, take n (validation_events p))"
  | (undetected) e where
      "flash_device_body env (Some p) opts dt [] =
         (Inl e, validation_events p @ [Shell ''wlink status -v''])" "validated env p"
  | (vsd) d where "dt = Some d" "str_in ''VSD Squadran Mini'' d"
      "flash_device_body env (Some p) opts dt [] =
         flash_vsd env None p opts (validation_events p @ [Shell ''wlink status -v''])"
      "validated env p"
  | (other) d where "dt = Some d" "\<not> str_in ''VSD Squadran Mini'' d"
      "flash_device_body env (Some p) opts dt [] =
         flash_other env p opts (validation_events p @ [Shell ''wlink status -v''])"
      "validated env p"
proof -
  have b: "flash_device_body env (Some p) opts dt [] = flash_from_path env (Some p) opts dt []"
    using p by (simp add: flash_device_body_def)
  note unf = flash_from_path_unfold[OF p, of env opts dt "[]", folded b]
  obtain r tr3 where det: "detect_chip_type env ([] @ validation_events p) = (r, tr3)"
    by (cases "detect_chip_type env ([] @ validation_events p)")
  from detect_chip_type_cases[OF det]
  have tr3: "tr3 = validation_events p @ [Shell ''wlink status -v'']" by simp
  consider (a) "\<not> path_exists env 0 p"
    | (b) "path_exists env 0 p" "\<not> path_exists env 1 p"
    | (c) "path_exists env 0 p" "path_exists env 1 p" "\<not> path_isfile env 2 p"
    | (d) "path_exists env 0 p" "path_exists env 1 p" "path_isfile env 2 p"
          "\<not> path_readable env 3 p"
    | (e) "validated env p"
    unfolding validated_def by blast
  then show ?thesis
  proof cases
    case a
    then have "flash_device_body env (Some p) opts dt [] =
               (Inl (FirmwareUpdateError ''Firmware file not found''), take 1 (validation_events p))"
      using unf by (simp add: eval_nat_numeral validation_events_def)
    then show ?thesis by (rule invalid)
  next
    case b
    then have "flash_device_body env (Some p) opts dt [] =
               (Inl (FirmwareUpdateError (''Firmware file not found: '' @ p)),
                take 2 (validation_events p))"
      using unf by (simp add: eval_nat_numeral validation_events_def)
    then show ?thesis by (rule invalid)
  next
    case c
    then have "flash_device_body env (Some p) opts dt [] =
               (Inl (FirmwareUpdateError (''Not a valid file: '' @ p)),
                take 3 (validation_events p))"
      using unf by (simp add: eval_nat_numeral validation_events_def)
    then show ?thesis by (rule invalid)
  next
    case d
    then have "flash_device_body env (Some p) opts dt [] =
               (Inl (FirmwareUpdateError (''No permission to read firmware file: '' @ p)),
                take 4 (validation_events p))"
      using unf by (simp add: eval_nat_numeral validation_events_def)
    then show ?thesis by (rule invalid)
  next
    case e
    then have v: "path_exists env 0 p" "path_exists env 1 p" "path_isfile env 2 p"
      "path_readable env 3 p" by (simp_all add: validated_def)
    show ?thesis
    proof (cases r)
      case (Inl x)
      then have "flash_device_body env (Some p) opts dt [] =
                 (Inl x, validation_events p @ [Shell ''wlink status -v''])"
        using unf v det tr3 by (simp add: eval_nat_numeral)
      then show ?thesis using e by (rule undetected)
    next
      case (Inr ci)
      show ?thesis
      proof (cases dt)
        case None
        then have "flash_device_body env (Some p) opts dt [] =
                 (Inl not_iterable, validation_events p @ [Shell ''wlink status -v''])"
          using unf v det tr3 Inr by (simp add: eval_nat_numeral)
        then show ?thesis using e by (rule undetected)
      next
        case (Some d)
        show ?thesis
        proof (cases "str_in ''VSD Squadran Mini'' d")
          case True
          have "flash_device_body env (Some p) opts dt [] =
                flash_vsd env None p opts (validation_events p @ [Shell ''wlink status -v''])"
            using unf v det tr3 Inr Some True by (simp add: eval_nat_numeral)
          then show ?thesis using Some True e by (intro vsd)
        next
          case False
          have "flash_device_body env (Some p) opts dt [] =
                flash_other env p opts (validation_events p @ [Shell ''wlink status -v''])"
            using unf v det tr3 Inr Some False by (simp add: eval_nat_numeral)
          then show ?thesis using Some False e by (intro other)
        qed
      qed
    qed
  qed
qed

lemma fs_event_not_flash: "is_fs_event e \<Longrightarrow> \<not> is_flash_event e"
  by (cases e) auto

lemma validation_events_fs: "\<forall>e\<in>set (validation_events p). is_fs_event e"
  by (simp add: validation_events_def)

lemma take_validation_fs: "\<forall>e\<in>set (take n (validation_events p)). is_fs_event e"
  using validation_events_fs by (meson in_set_takeD)

lemma trace_of_body: "snd (flash_device env fp opts dt) = snd (flash_device_body env fp opts dt [])"
  by (auto simp: flash_device_def split: prod.splits sum.splits option.splits)


subsection \<open>The errors of the body and their texts\<close>













lemma check_firmware_file_plain:
  "check_firmware_file env p tr = (Inl e, tr') \<Longrightarrow> CHR ''['' \<notin> set p \<Longrightarrow>
   CHR ''['' \<notin> set (exn_text e)"
  by (auto simp: check_firmware_file_def os_path_exists_def os_path_isfile_def os_access_def
           split: if_splits)











subsection \<open>The handlers\<close>

lemma flash_device_returns:
  "flash_device_body env fp opts dt [] = (Inr v, tr) \<Longrightarrow> flash_device env fp opts dt = (Inr v, tr)"
  by (simp add: flash_device_def)


lemma flash_device_outcome:
  "(\<exists>b. fst (flash_device env fp opts dt) = Inr (b, opts)) \<or>
   (\<exists>e m. fst (flash_device_body env fp opts dt []) = Inl e \<and> CHR ''['' \<in> set (exn_text e) \<and>
          markup_error env (handler_markup e) = Some m \<and>
          fst (flash_device env fp opts dt) = Inl (MarkupError m))"
proof -
  obtain r tr where b: "flash_device_body env fp opts dt [] = (r, tr)"
    by (cases "flash_device_body env fp opts dt []")
  show ?thesis
  proof (cases r)
    case (Inr v)
    with flash_device_body_ret[of env fp opts dt "[]" v tr] b have "v = (True, opts)" by simp
    with b Inr show ?thesis by (auto simp: flash_device_def)
  next
    case (Inl e)
    show ?thesis
    proof (cases "handler_print env e")
      case None
      with b Inl show ?thesis by (auto simp: flash_device_def)
    next
      case (Some m)
      then have "CHR ''['' \<in> set (exn_text e)" "markup_error env (handler_markup e) = Some m"
        by (auto simp: handler_print_def split: if_splits)
      with b Inl Some show ?thesis by (auto simp: flash_device_def)
    qed
  qed
qed

subsection \<open>Resets\<close>














section \<open>The claims\<close>

subsection \<open>The options that come back\<close>

text \<open>
  Claim C10. On every way out of \<^verbatim>\<open>flash_device\<close> that returns a pair (a flash that
  worked at whatever speed and attempt, every speed used up, any error caught and
  printed) the options of the pair are the options that were passed in: the speed that
  was used is never written into them. The only other way out is the
  \<^verbatim>\<open>MarkupError\<close> of a handler's print, which returns no pair.
\<close>

theorem options_returned_unchanged:
  "(\<exists>b. fst (flash_device env fp opts dt) = Inr (b, opts)) \<or>
   (\<exists>m. fst (flash_device env fp opts dt) = Inl (MarkupError m))"
  using flash_device_outcome[of env fp opts dt] by blast

subsection \<open>Errors at the boundary\<close>




subsection \<open>A firmware path that names no file\<close>




subsection \<open>Escalation down to the low speed\<close>

text \<open>
  Claim C1, as stated: on the branch for the other devices (speeds high, medium, low) with
  the starting speed high, a tool whose flash fails at high and medium and works at low
  sees three failed flash runs at high, three at medium and one that works at low, and
  \<^verbatim>\<open>flash_device\<close> returns success with options whose speed is low. The session below
  issues just these seven flash runs, and the options it returns still hold the speed
  high: the claim fails in its last part.
\<close>

theorem escalation_keeps_start_speed:
  "fst (flash_device (sim_env ''CH32V20X'' tool_low_only) (Some ''fw.bin'') opts_high
          (Some ''Other WCH-Link devices''))
     = Inr (True, Some [(''erase_method'', ''default''), (''speed'', ''high'')]) \<and>
   map flash_obs (filter is_flash_event
      (snd (flash_device (sim_env ''CH32V20X'' tool_low_only) (Some ''fw.bin'') opts_high
              (Some ''Other WCH-Link devices''))))
     = [(Some ''high'', False), (Some ''high'', False), (Some ''high'', False),
        (Some ''medium'', False), (Some ''medium'', False), (Some ''medium'', False),
        (Some ''low'', True)]"
  by code_simp

text \<open>
  Claim C1, amended: under the same conditions, for every session that reaches a flash
  run, the flash runs are three failures at high, three at medium and one success at
  low, in this order, and \<^verbatim>\<open>flash_device\<close> returns success with the options it was
  given, unchanged.
\<close>

theorem escalation_to_low:
  assumes dt: "dt = Some d" and nv: "\<not> str_in ''VSD Squadran Mini'' d"
      and opts: "opts = Some o'" and sp: "dict_get o' ''speed'' = Inr ''high''"
      and h1: "\<forall>t toks. is_flash_cmd toks \<and> (flash_speed toks = Some ''high'' \<or>
                 flash_speed toks = Some ''medium'') \<longrightarrow> \<not> tool env t toks"
      and h2: "\<forall>t toks. is_flash_cmd toks \<and> flash_speed toks = Some ''low'' \<longrightarrow> tool env t toks"
      and reached: "\<exists>e\<in>set (snd (flash_device env fp opts dt)). is_flash_event e"
  shows "fst (flash_device env fp opts dt) = Inr (True, opts) \<and>
         map flash_obs (filter is_flash_event (snd (flash_device env fp opts dt))) =
             [(Some ''high'', False), (Some ''high'', False), (Some ''high'', False),
              (Some ''medium'', False), (Some ''medium'', False), (Some ''medium'', False),
              (Some ''low'', True)]"
proof (cases rule: body_cases[of env fp opts dt])
  case (early e tr)
  then have "snd (flash_device env fp opts dt) = tr"
    by (simp add: trace_of_body)
  with reached early(2) show ?thesis
    using quiet_not_exec not_exec_not_flash by blast
next
  case (vsd p d' tr)
  with dt nv show ?thesis by simp
next
  case (other p d' tr)
  have q: "\<forall>e\<in>set tr. \<not> is_flash_event e"
    using other(4) quiet_not_exec not_exec_not_flash by blast
  have si: "start_index opts = Inr 0" using opts sp by (simp add: start_index_high)
  from flash_other_low_only[OF si h1 h2, of p tr]
  show ?thesis
  proof
    assume "\<exists>e evs. flash_other env p opts tr = (Inl e, tr @ evs) \<and>
                  (\<forall>ev\<in>set evs. \<not> is_flash_event ev)"
    then obtain e evs where b: "flash_device_body env fp opts dt [] = (Inl e, tr @ evs)"
      and nf: "\<forall>ev\<in>set evs. \<not> is_flash_event ev" using other(3) by auto
    from b have "snd (flash_device env fp opts dt) = tr @ evs"
      by (simp add: trace_of_body)
    with reached q nf show ?thesis by auto
  next
    assume "\<exists>evs. flash_other env p opts tr = (Inr (True, opts), tr @ evs) \<and>
            map flash_obs (filter is_flash_event evs) =
             [(Some ''high'', False), (Some ''high'', False), (Some ''high'', False),
              (Some ''medium'', False), (Some ''medium'', False), (Some ''medium'', False),
              (Some ''low'', True)]"
    then obtain evs where b: "flash_device_body env fp opts dt [] = (Inr (True, opts), tr @ evs)"
      and m: "map flash_obs (filter is_flash_event evs) =
             [(Some ''high'', False), (Some ''high'', False), (Some ''high'', False),
              (Some ''medium'', False), (Some ''medium'', False), (Some ''medium'', False),
              (Some ''low'', True)]" using other(3) by auto
    from b have "flash_device env fp opts dt = (Inr (True, opts), tr @ evs)"
      by (rule flash_device_returns)
    then show ?thesis using m filter_none[OF q] by simp
  qed
qed

theorem escalation_to_low_witness:
  "\<not> str_in ''VSD Squadran Mini'' ''Other WCH-Link devices'' \<and>
   dict_get [(''erase_method'', ''default''), (''speed'', ''high'')] ''speed'' = Inr ''high'' \<and>
   (\<exists>e\<in>set (snd (flash_device (sim_env ''CH32V20X'' tool_low_only) (Some ''fw.bin'') opts_high
                      (Some ''Other WCH-Link devices''))). is_flash_event e) \<and>
   fst (flash_device (sim_env ''CH32V20X'' tool_low_only) (Some ''fw.bin'') opts_high
          (Some ''Other WCH-Link devices'')) = Inr (True, opts_high) \<and>
   map flash_obs (filter is_flash_event
      (snd (flash_device (sim_env ''CH32V20X'' tool_low_only) (Some ''fw.bin'') opts_high
              (Some ''Other WCH-Link devices'')))) =
     [(Some ''high'', False), (Some ''high'', False), (Some ''high'', False),
      (Some ''medium'', False), (Some ''medium'', False), (Some ''medium'', False),
      (Some ''low'', True)]"
proof -
  let ?E = "sim_env ''CH32V20X'' tool_low_only"
  have nv: "\<not> str_in ''VSD Squadran Mini'' ''Other WCH-Link devices''" by code_simp
  have o: "opts_high = Some [(''erase_method'', ''default''), (''speed'', ''high'')]"
    by (simp add: opts_high_def)
  have sp: "dict_get [(''erase_method'', ''default''), (''speed'', ''high'')] ''speed'' = Inr ''high''"
    by (simp add: dict_get_def)
  have h1: "\<forall>t toks. is_flash_cmd toks \<and> (flash_speed toks = Some ''high'' \<or>
                 flash_speed toks = Some ''medium'') \<longrightarrow> \<not> tool ?E t toks"
    by (auto simp: sim_env_def tool_low_only_def dest: erase_not_flash)
  have h2: "\<forall>t toks. is_flash_cmd toks \<and> flash_speed toks = Some ''low'' \<longrightarrow> tool ?E t toks"
    by (simp add: sim_env_def tool_low_only_def)
  have r: "\<exists>e\<in>set (snd (flash_device ?E (Some ''fw.bin'') opts_high
                      (Some ''Other WCH-Link devices''))). is_flash_event e"
    by code_simp
  from escalation_to_low[OF refl nv o sp h1 h2 r] nv sp r show ?thesis by blast
qed

subsection \<open>A fixed speed\<close>

text \<open>
  Claim C2: on the VSD branch every flash run uses the low speed with verification. The
  claim also says that the flash is tried at most three times in all; the session below,
  in which every flash run fails, issues nine, all at the low speed with verification:
  the loop over the three speeds goes on after the three attempts of a speed, with the
  same command.
\<close>

theorem fixed_speed_nine_attempts:
  "fst (flash_device (sim_env ''CH32V003'' tool_no_flash) (Some ''fw.bin'') opts_high
          (Some ''VSD Squadran Mini (CH32V003)'')) = Inr (False, opts_high) \<and>
   filter is_flash_event
      (snd (flash_device (sim_env ''CH32V003'' tool_no_flash) (Some ''fw.bin'') opts_high
              (Some ''VSD Squadran Mini (CH32V003)'')))
     = replicate 9 (Exec [''wlink'', ''flash'', ''--chip'', ''CH32V003'', ''--speed'', ''low'',
                          ''--verify'', ''/work/fw.bin''] False)"
  by code_simp

subsection \<open>An erase that fails\<close>



subsection \<open>The erase method\<close>

text \<open>
  Claim C6: the erase command carries the erase method of the session's options. In the
  session below the options ask for \<^verbatim>\<open>pin-rst\<close>, and the erase that is run asks for
  \<^verbatim>\<open>default\<close>: the method is written into the command of each branch.
\<close>

theorem erase_method_ignored:
  "opts_pin_rst = Some [(''erase_method'', ''pin-rst''), (''speed'', ''high'')] \<and>
   filter is_erase_event
      (snd (flash_device (sim_env ''CH32V20X'' tool_all_ok) (Some ''fw.bin'') opts_pin_rst
              (Some ''Other WCH-Link devices'')))
     = [Exec [''wlink'', ''erase'', ''--method'', ''default'', ''--chip'', ''CH32V20X''] True]"
  by code_simp

subsection \<open>Token lists and the shell\<close>

text \<open>
  Claim C7, as stated: every external invocation of the program passes its arguments as
  a list of tokens, and none hands a command string to a shell. The session below hands
  the string \<^verbatim>\<open>wlink status -v\<close> to a shell twice (lines 368 and 562 by way of
  \<^verbatim>\<open>detect_chip_type\<close>, which runs it with \<^verbatim>\<open>shell=True\<close>).
\<close>

theorem status_query_through_shell:
  "filter is_shell
      (snd (flash_device (sim_env ''CH32V20X'' tool_all_ok) (Some ''fw.bin'') opts_high
              (Some ''Other WCH-Link devices'')))
     = [Shell ''wlink status -v'', Shell ''wlink status -v'']"
  by code_simp

text \<open>
  Claim C7, amended: in every session of \<^verbatim>\<open>flash_device\<close> the only command string
  handed to a shell is the constant \<^verbatim>\<open>wlink status -v\<close>, into which no input is
  written; the erase, the flash and the reset are events \<open>Exec\<close>, run from a list of
  tokens without a shell.
\<close>

theorem shell_only_for_status:
  "\<forall>e\<in>set (snd (flash_device env fp opts dt)). is_shell e \<longrightarrow> e = Shell ''wlink status -v''"
proof -
  have q: "is_shell e \<longrightarrow> e = Shell ''wlink status -v''" if "quiet e" for e
    using that by (cases e) auto
  have fin: "\<forall>e\<in>set tr'. is_shell e \<longrightarrow> e = Shell ''wlink status -v''"
    if "\<forall>ev\<in>set tr. quiet ev" "grows tr A tr'" "\<And>e. A e \<Longrightarrow> is_shell e \<longrightarrow> e = Shell ''wlink status -v''"
    for tr tr' A
    using that q by (auto simp: grows_def)
  have s: "snd (flash_device env fp opts dt) = snd (flash_device_body env fp opts dt [])"
    by (rule trace_of_body)
  show ?thesis
  proof (cases rule: body_cases[of env fp opts dt])
    case (early e tr)
    then show ?thesis using q s by auto
  next
    case (vsd p d tr)
    show ?thesis
      unfolding s vsd(3)
      by (rule fin[OF vsd(4) flash_vsd_grows]) (auto elim: is_erase_event.elims is_reset_event.elims is_flash_event.elims)
  next
    case (other p d tr)
    show ?thesis
      unfolding s other(3)
      by (rule fin[OF other(4) flash_other_grows]) (auto elim: is_erase_event.elims is_flash_event.elims)
  qed
qed

theorem shell_only_for_status_witness:
  "Shell ''wlink status -v'' \<in> set (snd (flash_device (sim_env ''CH32V003'' tool_all_ok) (Some ''fw.bin'')
      opts_high (Some ''VSD Squadran Mini (CH32V003)''))) \<and>
   Shell ''wlink erase --method power-off --chip CH32V003 -v'' \<notin>
     set (snd (flash_device (sim_env ''CH32V003'' tool_all_ok) (Some ''fw.bin'')
      opts_high (Some ''VSD Squadran Mini (CH32V003)'')))"
proof -
  let ?tr = "snd (flash_device (sim_env ''CH32V003'' tool_all_ok) (Some ''fw.bin'')
      opts_high (Some ''VSD Squadran Mini (CH32V003)''))"
  have a: "Shell ''wlink status -v'' \<in> set ?tr" by code_simp
  have "Shell ''wlink erase --method power-off --chip CH32V003 -v'' \<noteq> Shell ''wlink status -v''"
    by simp
  then have b: "Shell ''wlink erase --method power-off --chip CH32V003 -v'' \<notin> set ?tr"
    using shell_only_for_status[of "sim_env ''CH32V003'' tool_all_ok" "Some ''fw.bin''" opts_high
            "Some ''VSD Squadran Mini (CH32V003)''"]
    by (metis is_shell.simps(1))
  from a b show ?thesis by simp
qed

subsection \<open>The validation of the firmware file\<close>

text \<open>
  Claim C4, as stated: the firmware file is validated for existence, readability and the
  extension of a binary image exactly once, before any external attempt, and never again
  inside the loops. In the session below the file is \<^verbatim>\<open>fw.txt\<close>, which no check
  refuses, and the existence of its absolute path is looked up again before each of the
  two flash runs (lines 534-536), after the erase and the reset have been run.
\<close>

theorem firmware_checked_again:
  "flash_device (sim_env ''CH32V003'' tool_reset_once) (Some ''fw.txt'') opts_high
      (Some ''VSD Squadran Mini (CH32V003)'')
     = (Inr (True, opts_high),
        [Fs_exists ''fw.txt'', Fs_exists ''fw.txt'', Fs_isfile ''fw.txt'', Fs_access ''fw.txt'',
         Shell ''wlink status -v'',
         Exec [''wlink'', ''erase'', ''--method'', ''power-off'', ''--chip'', ''CH32V003'', ''-v''] True,
         Exec [''wlink'', ''reset''] True, Progress_wait 50 100,
         Fs_exists ''/work/fw.txt'',
         Exec [''wlink'', ''flash'', ''--chip'', ''CH32V003'', ''--speed'', ''low'', ''--verify'',
               ''/work/fw.txt''] False,
         Exec [''wlink'', ''reset''] False, Sleep 2,
         Fs_exists ''/work/fw.txt'',
         Exec [''wlink'', ''flash'', ''--chip'', ''CH32V003'', ''--speed'', ''low'', ''--verify'',
               ''/work/fw.txt''] True])"
  by code_simp

text \<open>
  Claim C4, amended: for a session given a path, (1) anything run, with or without a
  shell, comes after the four checks of lines 446-453 (existence twice, regular file,
  readable; no check of the extension), which passed; (2) on the VSD branch every flash
  run comes right after a new check that the absolute path exists, which passed; (3) on
  the branch for other devices the file system is not looked at again after the four
  checks.
\<close>

theorem firmware_validation:
  assumes p: "p \<noteq> []"
  shows "((\<exists>e\<in>set (snd (flash_device env (Some p) opts dt)). is_exec e \<or> is_shell e) \<longrightarrow>
            take 4 (snd (flash_device env (Some p) opts dt)) = validation_events p \<and>
            path_exists env 0 p \<and> path_exists env 1 p \<and> path_isfile env 2 p \<and>
            path_readable env 3 p) \<and>
         (\<forall>d. dt = Some d \<and> str_in ''VSD Squadran Mini'' d \<longrightarrow>
            (\<forall>i<length (snd (flash_device env (Some p) opts dt)).
               is_flash_event (snd (flash_device env (Some p) opts dt) ! i) \<longrightarrow>
               0 < i \<and> snd (flash_device env (Some p) opts dt) ! (i - 1) = Fs_exists (abspath env p) \<and>
               path_exists env (i - 1) (abspath env p))) \<and>
         (\<forall>d. dt = Some d \<and> \<not> str_in ''VSD Squadran Mini'' d \<longrightarrow>
            (\<forall>e\<in>set (drop 4 (snd (flash_device env (Some p) opts dt))). \<not> is_fs_event e))"
proof -
  let ?tr = "snd (flash_device env (Some p) opts dt)"
  let ?pre = "validation_events p @ [Shell ''wlink status -v'']"
  have len: "length (validation_events p) = 4" by (simp add: validation_events_def)
  have pre_nf: "\<forall>e\<in>set ?pre. \<not> is_flash_event e"
    by (simp add: validation_events_def)
  let ?A = "(\<exists>e\<in>set ?tr. is_exec e \<or> is_shell e) \<longrightarrow>
            take 4 ?tr = validation_events p \<and>
            path_exists env 0 p \<and> path_exists env 1 p \<and> path_isfile env 2 p \<and>
            path_readable env 3 p"
  let ?B = "\<forall>d. dt = Some d \<and> str_in ''VSD Squadran Mini'' d \<longrightarrow>
            (\<forall>i<length ?tr. is_flash_event (?tr ! i) \<longrightarrow>
               0 < i \<and> ?tr ! (i - 1) = Fs_exists (abspath env p) \<and>
               path_exists env (i - 1) (abspath env p))"
  let ?C = "\<forall>d. dt = Some d \<and> \<not> str_in ''VSD Squadran Mini'' d \<longrightarrow>
            (\<forall>e\<in>set (drop 4 ?tr). \<not> is_fs_event e)"
  have B_from: ?B if "checked_before env (abspath env p) ?tr"
    using that unfolding checked_before_def by blast
  have A_from: ?A if "take 4 ?tr = validation_events p" "validated env p"
    using that unfolding validated_def by blast
  from p have "?A \<and> ?B \<and> ?C"
  proof (cases rule: body_given_cases[where env=env and opts=opts and dt=dt])
    case (invalid e n)
    then have tr: "?tr = take n (validation_events p)" by (simp add: trace_of_body)
    have fs: "\<forall>e\<in>set ?tr. is_fs_event e" unfolding tr by (rule take_validation_fs)
    have "\<not> (\<exists>e\<in>set ?tr. is_exec e \<or> is_shell e)"
    proof
      assume "\<exists>e\<in>set ?tr. is_exec e \<or> is_shell e"
      then obtain e where "e \<in> set ?tr" "is_exec e \<or> is_shell e" by blast
      with fs show False by (cases e) auto
    qed
    then have A: ?A by blast
    have "checked_before env (abspath env p) ?tr"
      by (rule checked_before_none) (use fs fs_event_not_flash in blast)
    then have B: ?B by (rule B_from)
    have d4: "drop 4 ?tr = []" unfolding tr using len by simp
    have C: ?C unfolding d4 by simp
    from A B C show ?thesis by (intro conjI)
  next
    case (undetected e)
    then have tr: "?tr = ?pre" by (simp add: trace_of_body)
    have "checked_before env (abspath env p) ?tr"
      unfolding tr by (rule checked_before_none[OF pre_nf])
    then have B: ?B by (rule B_from)
    have d4: "drop 4 ?tr = [Shell ''wlink status -v'']" unfolding tr using len by simp
    have C: ?C unfolding d4 by simp
    have "take 4 ?tr = validation_events p" unfolding tr using len by simp
    then have A: ?A using undetected(2) by (rule A_from)
    from A B C show ?thesis by (intro conjI)
  next
    case (vsd d)
    then have tr: "?tr = snd (flash_vsd env None p opts ?pre)" by (simp add: trace_of_body)
    from flash_vsd_grows[of ?pre env p None opts] obtain evs where
      ev: "?tr = ?pre @ evs" unfolding tr by (auto simp: grows_def)
    have "checked_before env (abspath env p) ?tr"
      unfolding tr by (rule flash_vsd_checked[OF pre_nf])
    then have B: ?B by (rule B_from)
    have "take 4 ?tr = validation_events p" unfolding ev using len by simp
    then have A: ?A using vsd(4) by (rule A_from)
    have C: ?C using vsd(1,2) by auto
    from A B C show ?thesis by (intro conjI)
  next
    case (other d)
    then have tr: "?tr = snd (flash_other env p opts ?pre)" by (simp add: trace_of_body)
    from flash_other_grows[of ?pre env p opts] obtain evs where
      ev: "?tr = ?pre @ evs" and
      al: "\<forall>e\<in>set evs. e = Shell ''wlink status -v'' \<or> is_erase_event e \<or> (\<exists>n. e = Sleep n) \<or>
                 (\<exists>k ms. e = Progress_wait k ms) \<or> is_flash_event e"
      unfolding tr by (auto simp: grows_def)
    have nfs: "\<not> is_fs_event e" if "e \<in> set evs" for e
      using al that by (cases e) auto
    have d4: "drop 4 ?tr = Shell ''wlink status -v'' # evs" unfolding ev using len by simp
    have C: ?C unfolding d4 using nfs by simp
    have "take 4 ?tr = validation_events p" unfolding ev using len by simp
    then have A: ?A using other(4) by (rule A_from)
    have B: ?B using other(1,2) by auto
    from A B C show ?thesis by (intro conjI)
  qed
  then show ?thesis .
qed

theorem firmware_validation_witness:
  "is_flash_event (snd (flash_device (sim_env ''CH32V003'' tool_reset_once) (Some ''fw.txt'') opts_high
      (Some ''VSD Squadran Mini (CH32V003)'')) ! 13) \<and>
   snd (flash_device (sim_env ''CH32V003'' tool_reset_once) (Some ''fw.txt'') opts_high
      (Some ''VSD Squadran Mini (CH32V003)'')) ! 12 = Fs_exists ''/work/fw.txt'' \<and>
   path_exists (sim_env ''CH32V003'' tool_reset_once) 12 ''/work/fw.txt'' \<and>
   take 4 (snd (flash_device (sim_env ''CH32V003'' tool_reset_once) (Some ''fw.txt'') opts_high
      (Some ''VSD Squadran Mini (CH32V003)''))) = validation_events ''fw.txt'' \<and>
   path_readable (sim_env ''CH32V003'' tool_reset_once) 3 ''fw.txt'' \<and>
   filter is_fs_event (drop 4 (snd (flash_device (sim_env ''CH32V20X'' tool_all_ok) (Some ''fw.txt'')
      opts_high (Some ''Other WCH-Link devices'')))) = []"
proof -
  let ?E = "sim_env ''CH32V003'' tool_reset_once"
  let ?d = "''VSD Squadran Mini (CH32V003)''"
  let ?tr = "snd (flash_device ?E (Some ''fw.txt'') opts_high (Some ?d))"
  let ?E2 = "sim_env ''CH32V20X'' tool_all_ok"
  let ?d2 = "''Other WCH-Link devices''"
  let ?tr2 = "snd (flash_device ?E2 (Some ''fw.txt'') opts_high (Some ?d2))"
  have p: "''fw.txt'' \<noteq> []" by simp
  note T = firmware_validation[OF p, of ?E opts_high "Some ?d"]
  note T2 = firmware_validation[OF p, of ?E2 opts_high "Some ?d2"]
  have vsd: "str_in ''VSD Squadran Mini'' ?d" by code_simp
  have nvsd: "\<not> str_in ''VSD Squadran Mini'' ?d2" by code_simp
  have l: "13 < length ?tr" by code_simp
  have f: "is_flash_event (?tr ! 13)" by code_simp
  have inv: "\<exists>e\<in>set ?tr. is_exec e \<or> is_shell e" by code_simp
  have ab: "abspath ?E ''fw.txt'' = ''/work/fw.txt''" by (simp add: sim_env_def)
  from T inv have a: "take 4 ?tr = validation_events ''fw.txt''" "path_readable ?E 3 ''fw.txt''"
    by blast+
  from T vsd have "\<forall>i<length ?tr. is_flash_event (?tr ! i) \<longrightarrow>
       0 < i \<and> ?tr ! (i - 1) = Fs_exists (abspath ?E ''fw.txt'') \<and>
       path_exists ?E (i - 1) (abspath ?E ''fw.txt'')" by blast
  with l f have "?tr ! (13 - 1) = Fs_exists (abspath ?E ''fw.txt'') \<and>
       path_exists ?E (13 - 1) (abspath ?E ''fw.txt'')" by blast
  then have b: "?tr ! 12 = Fs_exists ''/work/fw.txt''" "path_exists ?E 12 ''/work/fw.txt''"
    unfolding ab by simp_all
  from T2 nvsd have "\<forall>e\<in>set (drop 4 ?tr2). \<not> is_fs_event e" by blast
  then have c: "filter is_fs_event (drop 4 ?tr2) = []" by (rule filter_none)
  from f b a c show ?thesis by (intro conjI)
qed

subsection \<open>A reset that fails\<close>




end
